theory Spec2Isabelle
  imports Complex_Main "HOL-Library.Word"
begin

unbundle bit_operations_syntax

section \<open>Strings\<close>

text \<open>
  A Python \<open>str\<close> is modelled as a \<open>string\<close> whose characters are the code points
  below 256. In that range the decimal digits (\<open>\d\<close> of \<open>re\<close>, and the digits
  \<open>int()\<close> accepts) are \<open>0\<close> to \<open>9\<close>, \<open>str.isspace\<close> holds for the code points
  9 to 13, 28 to 32, 133 and 160, and \<open>str.lower\<close> adds 32 to \<open>A\<close>-\<open>Z\<close> and to the
  upper-case letters 192 to 222 (215, the multiplication sign, is not a letter).
\<close>

definition is_space :: "char \<Rightarrow> bool" where
  "is_space c = (let n = (of_char c :: nat) in
     (9 \<le> n \<and> n \<le> 13) \<or> (28 \<le> n \<and> n \<le> 32) \<or> n = 133 \<or> n = 160)"

definition lower_char :: "char \<Rightarrow> char" where
  "lower_char c = (let n = (of_char c :: nat) in
     if (65 \<le> n \<and> n \<le> 90) \<or> (192 \<le> n \<and> n \<le> 222 \<and> n \<noteq> 215)
     then (case c of Char b0 b1 b2 b3 b4 b5 b6 b7 \<Rightarrow> Char b0 b1 b2 b3 b4 True b6 b7)
     else c)"

definition py_lower :: "string \<Rightarrow> string" where
  "py_lower s = map lower_char s"

definition py_strip :: "string \<Rightarrow> string" where
  "py_strip s = rev (dropWhile is_space (rev (dropWhile is_space s)))"

section \<open>Digits, \<open>int()\<close> and the regular expressions of the extractor\<close>

datatype py_error = ValueError

definition is_digit :: "char \<Rightarrow> bool" where
  "is_digit c = (let n = (of_char c :: nat) in 48 \<le> n \<and> n \<le> 57)"

definition digit_value :: "char \<Rightarrow> int" where
  "digit_value c = int (of_char c) - 48"

text \<open>
  \<open>int(s)\<close> on a string: the decimal value of a non-empty string of digits, and
  \<open>ValueError\<close> on the empty string, at a character that is not a digit, and on more
  digits than the interpreter converts: CPython refuses a conversion of more than
  \<open>sys.int_info.default_max_str_digits\<close> digits, 4300 unless the runtime is set up
  otherwise, and counts leading zeros. The source passes only the result of deleting
  every non-digit and the group of a \<open>\d+\<close> match, so the sign, blanks and underscores
  that \<open>int()\<close> also reads never reach it.
\<close>

definition max_str_digits :: nat where
  "max_str_digits = 4300"

definition py_int :: "string \<Rightarrow> py_error + int" where
  "py_int s = (if s \<noteq> [] \<and> list_all is_digit s \<and> length s \<le> max_str_digits
     then Inr (foldl (\<lambda>acc c. 10 * acc + digit_value c) 0 s) else Inl ValueError)"

text \<open>\<open>re.sub(r"[^\d]", "", s)\<close>\<close>

definition re_sub_nondigits :: "string \<Rightarrow> string" where
  "re_sub_nondigits s = filter is_digit s"

text \<open>\<open>re.search(r"(\d+)", s)\<close>, as group 1 of the match: the leftmost, longest run of digits.\<close>

definition re_search_digits :: "string \<Rightarrow> string option" where
  "re_search_digits s = (case dropWhile (\<lambda>c. \<not> is_digit c) s of
      [] \<Rightarrow> None | c # cs \<Rightarrow> Some (takeWhile is_digit (c # cs)))"

text \<open>
  \<open>re.search(r"(\d+)%", s)\<close>, as group 1 of the match. A match starts at a digit and
  takes the whole run of digits up to a percent sign; a run followed by anything else
  matches at none of its positions, and the search goes on behind it.
\<close>

function re_search_percent :: "string \<Rightarrow> string option" where
  "re_search_percent [] = None"
| "re_search_percent (c # cs) =
     (if is_digit c
      then (case dropWhile is_digit cs of
              [] \<Rightarrow> None
            | d # ds \<Rightarrow> if d = CHR ''%'' then Some (c # takeWhile is_digit cs)
                       else re_search_percent ds)
      else re_search_percent cs)"
  by pat_completeness auto
termination
proof (relation "measure length")
  fix c :: char and cs :: string and d ds
  assume "dropWhile is_digit cs = d # ds"
  then have "length (d # ds) \<le> length cs"
    by (metis length_dropWhile_le)
  then show "(ds, c # cs) \<in> measure length" by simp
qed auto

text \<open>\<open>str(n)\<close> of an integer.\<close>

fun str_nat :: "nat \<Rightarrow> string" where
  "str_nat n = (if n < 10 then [''0123456789'' ! n]
                else str_nat (n div 10) @ [''0123456789'' ! (n mod 10)])"

declare str_nat.simps [simp del]

definition str_int :: "int \<Rightarrow> string" where
  "str_int i = (if i < 0 then CHR ''-'' # str_nat (nat (- i)) else str_nat (nat i))"

text \<open>
  The integer a string of decimal digits denotes, by position: the reference that the
  conversions of the extractor are compared with.
\<close>

definition decimal_value :: "string \<Rightarrow> int" where
  "decimal_value s = (\<Sum>i<length s. digit_value (s ! i) * 10 ^ (length s - Suc i))"

section \<open>Domain resolver (\<open>utils_domain.py\<close>)\<close>

record DomainConfig =
  domain_map :: "string \<rightharpoonup> string"
  default_code :: string

definition known_suffixes :: "string list" where
  "known_suffixes = [''com'', ''de'', ''fr'', ''it'', ''es'', ''nl'', ''co.uk'', ''com.au'',
     ''ca'', ''co.jp'', ''com.mx'', ''com.tr'', ''ae'', ''sg'', ''sa'']"


text \<open>
  \<open>DomainConfig.get_domain\<close>: an empty code is replaced by the default code, the code
  is normalised, a code with a dot or in the allow-list passes through, and any other
  code is looked up in the alias table with the (unnormalised) default code as fallback.
\<close>

definition get_domain :: "DomainConfig \<Rightarrow> string \<Rightarrow> string" where
  "get_domain cfg code0 =
     (let code1 = (if code0 = [] then default_code cfg else code0);
          code = py_strip (py_lower code1)
      in if CHR ''.'' \<in> set code \<or> code \<in> set known_suffixes then code
         else (case domain_map cfg code of Some d \<Rightarrow> d | None \<Rightarrow> default_code cfg))"

section \<open>Parsed documents, selectors and text\<close>

text \<open>
  The document tree that \<open>BeautifulSoup(html, "html.parser")\<close> builds: elements with a
  lower-cased name, their attributes and children, and strings. A string has a kind, the
  class the parser gives it: ordinary text is a \<open>NavigableString\<close>, and a comment, a
  doctype, a declaration, a processing instruction, a CDATA section and the text inside
  \<open>script\<close>, \<open>style\<close>, \<open>template\<close>, \<open>rt\<close> and \<open>rp\<close> have classes of their own. A tag
  object of the library knows its parents, so it is modelled as the element with its
  ancestors, nearest first; the document itself is the element named \<open>[document]\<close> with
  no ancestors.
\<close>

datatype string_kind =
    NavigableString | CData | Comment | Doctype | Declaration | ProcessingInstruction
  | Script | Stylesheet | TemplateString | RubyTextString | RubyParenthesisString

datatype node =
    Element (tag: string) (attrs: "(string \<times> string) list") (children: "node list")
  | Text string_kind string

type_synonym tag_obj = "node \<times> node list"

fun node_tag :: "node \<Rightarrow> string option" where
  "node_tag (Element t a cs) = Some t"
| "node_tag (Text k s) = None"

fun node_attrs :: "node \<Rightarrow> (string \<times> string) list" where
  "node_attrs (Element t a cs) = a"
| "node_attrs (Text k s) = []"

fun node_children :: "node \<Rightarrow> node list" where
  "node_children (Element t a cs) = cs"
| "node_children (Text k s) = []"

text \<open>\<open>tag.get(key)\<close>: the attribute's value, or \<open>None\<close>.\<close>

definition get_attr :: "string \<Rightarrow> tag_obj \<Rightarrow> string option" where
  "get_attr k t = map_of (node_attrs (fst t)) k"

text \<open>
  The selectors the extractor uses: a selector is a comma-separated list of chains, a
  chain is a list of compound selectors joined by the descendant combinator, and a
  compound selector is a list of simple ones: \<open>div\<close>, \<open>#id\<close>, \<open>.class\<close> and
  \<open>[attr='value']\<close>.
\<close>

datatype simple_sel = Tag string | Id string | Class string | Attr string string

type_synonym compound_sel = "simple_sel list"
type_synonym selector = "compound_sel list list"

fun split_ws :: "string \<Rightarrow> string \<Rightarrow> string list" where
  "split_ws cur [] = (if cur = [] then [] else [cur])"
| "split_ws cur (c # cs) =
     (if is_space c then (if cur = [] then split_ws [] cs else cur # split_ws [] cs)
      else split_ws (cur @ [c]) cs)"

fun matches_simple :: "simple_sel \<Rightarrow> node \<Rightarrow> bool" where
  "matches_simple (Tag t) el = (node_tag el = Some t)"
| "matches_simple (Id i) el = (map_of (node_attrs el) ''id'' = Some i)"
| "matches_simple (Class c) el =
     (case map_of (node_attrs el) ''class'' of
        None \<Rightarrow> False
      | Some v \<Rightarrow> c \<in> set (split_ws [] v))"
| "matches_simple (Attr k v) el = (map_of (node_attrs el) k = Some v)"

definition matches_compound :: "compound_sel \<Rightarrow> node \<Rightarrow> bool" where
  "matches_compound ss el = list_all (\<lambda>s. matches_simple s el) ss"

text \<open>
  The compounds left of the last one, innermost first, against the ancestors, nearest
  first: each must match some ancestor above the one matched before it.
\<close>

fun match_ancestors :: "compound_sel list \<Rightarrow> node list \<Rightarrow> bool" where
  "match_ancestors [] ancs = True"
| "match_ancestors (c # cs) [] = False"
| "match_ancestors (c # cs) (a # as) =
     ((matches_compound c a \<and> match_ancestors cs as) \<or> match_ancestors (c # cs) as)"

definition match_chain :: "compound_sel list \<Rightarrow> tag_obj \<Rightarrow> bool" where
  "match_chain chain t =
     (case rev chain of
        [] \<Rightarrow> False
      | c # cs \<Rightarrow> matches_compound c (fst t) \<and> match_ancestors cs (snd t))"

definition match_selector :: "selector \<Rightarrow> tag_obj \<Rightarrow> bool" where
  "match_selector sel t = list_ex (\<lambda>chain. match_chain chain t) sel"

text \<open>An element and the elements below it, in document order.\<close>

fun subtree :: "node list \<Rightarrow> node \<Rightarrow> tag_obj list" where
  "subtree ancs (Text k s) = []"
| "subtree ancs (Element t a cs) =
     (Element t a cs, ancs) # concat (map (subtree (Element t a cs # ancs)) cs)"

definition descendants :: "tag_obj \<Rightarrow> tag_obj list" where
  "descendants t = concat (map (subtree (fst t # snd t)) (node_children (fst t)))"

text \<open>\<open>tag.select(sel)\<close> and \<open>tag.select_one(sel)\<close>\<close>

definition select :: "selector \<Rightarrow> tag_obj \<Rightarrow> tag_obj list" where
  "select sel t = filter (match_selector sel) (descendants t)"

definition select_one :: "selector \<Rightarrow> tag_obj \<Rightarrow> tag_obj option" where
  "select_one sel t = (case select sel t of [] \<Rightarrow> None | x # xs \<Rightarrow> Some x)"

text \<open>
  \<open>tag.get_text(sep, strip=...)\<close>: the strings below the tag in document order whose
  kind is one the tag is interested in, with \<open>strip=True\<close> each one stripped and the
  empty ones left out, joined by \<open>sep\<close>. A tag is interested in ordinary text and CDATA,
  except that \<open>script\<close>, \<open>style\<close>, \<open>template\<close>, \<open>rt\<close> and \<open>rp\<close> are interested in
  the kind of string they contain; so the text of a script below a \<open>span\<close> and a comment
  are not part of the text of the \<open>span\<close>.
\<close>

definition interesting_string_types :: "node \<Rightarrow> string_kind list" where
  "interesting_string_types el =
     (if node_tag el = Some ''script'' then [Script]
      else if node_tag el = Some ''style'' then [Stylesheet]
      else if node_tag el = Some ''template'' then [TemplateString]
      else if node_tag el = Some ''rt'' then [RubyTextString]
      else if node_tag el = Some ''rp'' then [RubyParenthesisString]
      else [NavigableString, CData])"

fun strings :: "string_kind list \<Rightarrow> node \<Rightarrow> string list" where
  "strings types (Text k s) = (if k \<in> set types then [s] else [])"
| "strings types (Element t a cs) = concat (map (strings types) cs)"

fun join :: "string \<Rightarrow> string list \<Rightarrow> string" where
  "join sep [] = []"
| "join sep [x] = x"
| "join sep (x # y # ys) = x @ sep @ join sep (y # ys)"

definition get_text :: "string \<Rightarrow> bool \<Rightarrow> tag_obj \<Rightarrow> string" where
  "get_text sep strip t =
     (let ss = strings (interesting_string_types (fst t)) (fst t)
      in join sep (if strip then filter (\<lambda>s. s \<noteq> []) (map py_strip ss) else ss))"

section \<open>Markup extractor (\<open>review_extractor.py\<close>)\<close>

text \<open>The dictionaries the three passes return, with their keys as fields.\<close>

record product_info =
  pi_title :: "string option"

type_synonym summary_dict = "(string \<times> (string \<times> int) list) list"

record summary_info =
  si_productRating :: "string option"
  si_countRatings :: "int option"
  si_summary :: "summary_dict option"

record review_fields =
  r_id :: "string option"
  r_title :: "string option"
  r_rating :: "string option"
  r_user :: "string option"
  r_date :: "string option"
  r_text :: "string option"
  r_helpful :: "int option"
  r_verified :: bool
  r_vine :: bool
  r_images :: "string list option"
  r_videos :: "string list option"
  r_variations :: "string list option"
  r_variationId :: "string option"

text \<open>\<open>d[k] = v\<close> on a dictionary kept in insertion order.\<close>

fun dict_set :: "'k \<Rightarrow> 'v \<Rightarrow> ('k \<times> 'v) list \<Rightarrow> ('k \<times> 'v) list" where
  "dict_set k v [] = [(k, v)]"
| "dict_set k v ((k', v') # d) = (if k = k' then (k, v) # d else (k', v') # dict_set k v d)"

text \<open>\<open>xs or None\<close>\<close>

definition or_None :: "'a list \<Rightarrow> 'a list option" where
  "or_None xs = (if xs = [] then None else Some xs)"

definition sel_product_title :: selector where
  "sel_product_title = [[[Id ''cm_cr-product_info''], [Class ''product-title'']],
                        [[Id ''cm_cr-product_info''], [Tag ''h1'']]]"

definition sel_product_link :: selector where
  "sel_product_link = [[[Id ''cm_cr-product_info''], [Tag ''a'', Attr ''data-hook'' ''product-link'']]]"

definition parse_product_info :: "tag_obj \<Rightarrow> product_info" where
  "parse_product_info soup =
     (let title = (case select_one sel_product_title soup of
                     Some h1 \<Rightarrow> Some (get_text [] True h1)
                   | None \<Rightarrow> None);
          title = (if title = None \<or> title = Some []
                   then (case select_one sel_product_link soup of
                           Some link \<Rightarrow> Some (get_text [] True link)
                         | None \<Rightarrow> title)
                   else title)
      in \<lparr>pi_title = title\<rparr>)"

definition sel_rating_out_of_text :: selector where
  "sel_rating_out_of_text = [[[Tag ''span'', Attr ''data-hook'' ''rating-out-of-text'']]]"

definition sel_total_review_count :: selector where
  "sel_total_review_count = [[[Tag ''div'', Attr ''data-hook'' ''total-review-count''], [Tag ''span'']]]"

definition sel_histogram :: "string \<Rightarrow> selector" where
  "sel_histogram star = [[[Tag ''table'', Id ''histogramTable''],
                          [Tag ''tr'', Class (star @ ''-star'')],
                          [Class ''a-text-right'']]]"

text \<open>
  The loop over the five star levels, with the \<open>summary\<close> dictionary as accumulator. The
  conversion \<open>int(m.group(1))\<close> is not inside a \<open>try\<close>: an error of it leaves the loop.
\<close>

fun star_loop :: "tag_obj \<Rightarrow> string list \<Rightarrow> summary_dict \<Rightarrow> py_error + summary_dict" where
  "star_loop soup [] summary = Inr summary"
| "star_loop soup (star # stars) summary =
     (case select_one (sel_histogram star) soup of
        None \<Rightarrow> star_loop soup stars summary
      | Some el \<Rightarrow>
          (case re_search_percent (get_text [] False el) of
             None \<Rightarrow> star_loop soup stars summary
           | Some g \<Rightarrow>
               (case py_int g of
                  Inl e \<Rightarrow> Inl e
                | Inr n \<Rightarrow> star_loop soup stars
                            (dict_set (star @ ''Star'') [(''percentage'', n)] summary))))"

definition parse_summary_info :: "tag_obj \<Rightarrow> py_error + summary_info" where
  "parse_summary_info soup =
     (let product_rating = (case select_one sel_rating_out_of_text soup of
                              Some avg \<Rightarrow> Some (get_text [] True avg)
                            | None \<Rightarrow> None);
          count_ratings = (case select_one sel_total_review_count soup of
                             Some cnt \<Rightarrow>
                               (case py_int (re_sub_nondigits (get_text [] False cnt)) of
                                  Inr n \<Rightarrow> Some n
                                | Inl e \<Rightarrow> None)
                           | None \<Rightarrow> None)
      in case star_loop soup [''five'', ''four'', ''three'', ''two'', ''one''] [] of
           Inl e \<Rightarrow> Inl e
         | Inr summary \<Rightarrow>
             Inr \<lparr>si_productRating = product_rating, si_countRatings = count_ratings,
                  si_summary = or_None summary\<rparr>)"

definition sel_review :: selector where
  "sel_review = [[[Tag ''div'', Attr ''data-hook'' ''review'']]]"

definition sel_review_title :: selector where
  "sel_review_title = [[[Tag ''a'', Attr ''data-hook'' ''review-title''], [Tag ''span'']]]"

definition sel_review_rating :: selector where
  "sel_review_rating = [[[Tag ''i'', Attr ''data-hook'' ''review-star-rating''], [Tag ''span'']],
                        [[Tag ''i'', Attr ''data-hook'' ''cmps-review-star-rating''], [Tag ''span'']]]"

definition sel_profile_name :: selector where
  "sel_profile_name = [[[Tag ''span'', Class ''a-profile-name'']]]"

definition sel_review_date :: selector where
  "sel_review_date = [[[Tag ''span'', Attr ''data-hook'' ''review-date'']]]"

definition sel_review_body :: selector where
  "sel_review_body = [[[Tag ''span'', Attr ''data-hook'' ''review-body''], [Tag ''span'']]]"

definition sel_helpful :: selector where
  "sel_helpful = [[[Tag ''span'', Attr ''data-hook'' ''helpful-vote-statement'']]]"

definition sel_avp_badge :: selector where
  "sel_avp_badge = [[[Tag ''span'', Attr ''data-hook'' ''avp-badge'']]]"

definition sel_vine_badge :: selector where
  "sel_vine_badge = [[[Tag ''span'', Attr ''data-hook'' ''vine-review-badge'']]]"

definition sel_image_tile :: selector where
  "sel_image_tile = [[[Tag ''img'', Class ''review-image-tile'']]]"

definition sel_video_source :: selector where
  "sel_video_source = [[[Tag ''div'', Attr ''data-hook'' ''video-cmp''], [Tag ''video''], [Tag ''source'']]]"

definition sel_format_strip :: selector where
  "sel_format_strip = [[[Tag ''a'', Attr ''data-hook'' ''format-strip'']]]"

text \<open>The text of the first match of a selector, or \<open>None\<close>.\<close>

definition text_of_first :: "selector \<Rightarrow> string \<Rightarrow> tag_obj \<Rightarrow> string option" where
  "text_of_first sel sep entry =
     (case select_one sel entry of Some el \<Rightarrow> Some (get_text sep True el) | None \<Rightarrow> None)"

text \<open>The helpful count of a review entry (lines 241 to 245).\<close>

definition parse_helpful :: "tag_obj \<Rightarrow> py_error + int option" where
  "parse_helpful entry =
     (case select_one sel_helpful entry of
        None \<Rightarrow> Inr None
      | Some helpful_el \<Rightarrow>
          (case re_search_digits (get_text [] False helpful_el) of
             None \<Rightarrow> Inr (Some 0)
           | Some g \<Rightarrow> (case py_int g of Inl e \<Rightarrow> Inl e | Inr n \<Rightarrow> Inr (Some n))))"

text \<open>The \<open>src\<close> values that are present and not empty, in document order.\<close>

definition src_list :: "tag_obj list \<Rightarrow> string list" where
  "src_list els = List.map_filter
     (\<lambda>el. case get_attr ''src'' el of
              Some s \<Rightarrow> if s \<noteq> [] then Some s else None
            | None \<Rightarrow> None) els"

text \<open>The body of the loop over the review entries: the dictionary one entry yields.\<close>

definition parse_review :: "tag_obj \<Rightarrow> py_error + review_fields" where
  "parse_review entry =
     (let rid = get_attr ''id'' entry;
          title = text_of_first sel_review_title [] entry;
          rating = text_of_first sel_review_rating [] entry;
          user = text_of_first sel_profile_name [] entry;
          date_txt = text_of_first sel_review_date [] entry;
          text = text_of_first sel_review_body '' '' entry
      in case parse_helpful entry of
           Inl e \<Rightarrow> Inl e
         | Inr helpful \<Rightarrow>
             (let verified = (select_one sel_avp_badge entry \<noteq> None);
                  vine = (select_one sel_vine_badge entry \<noteq> None);
                  images = src_list (select sel_image_tile entry);
                  videos = src_list (select sel_video_source entry);
                  variations = (case select_one sel_format_strip entry of
                                  Some var_el \<Rightarrow> [get_text '' '' True var_el]
                                | None \<Rightarrow> [])
              in Inr \<lparr>r_id = rid, r_title = title, r_rating = rating, r_user = user,
                      r_date = date_txt, r_text = text, r_helpful = helpful,
                      r_verified = verified, r_vine = vine,
                      r_images = or_None images, r_videos = or_None videos,
                      r_variations = or_None variations, r_variationId = None\<rparr>))"

text \<open>
  The generator \<open>_parse_reviews_from_soup\<close>, consumed whole by \<open>list(...)\<close>: the entries'
  dictionaries in document order, or the first error.
\<close>

fun parse_entries :: "tag_obj list \<Rightarrow> py_error + review_fields list" where
  "parse_entries [] = Inr []"
| "parse_entries (entry # entries) =
     (case parse_review entry of
        Inl e \<Rightarrow> Inl e
      | Inr r \<Rightarrow> (case parse_entries entries of Inl e \<Rightarrow> Inl e | Inr rs \<Rightarrow> Inr (r # rs)))"

definition parse_reviews_from_soup :: "tag_obj \<Rightarrow> py_error + review_fields list" where
  "parse_reviews_from_soup soup = parse_entries (select sel_review soup)"

section \<open>Records and request values\<close>

text \<open>
  The values a filter set holds (\<open>Dict[str, Any]\<close>, filled from JSON by \<open>main.py\<close> with
  \<open>None\<close>, booleans, numbers and strings), their truth value and their \<open>str()\<close>.
\<close>

datatype pyval = PNone | PBool bool | PInt int | PStr string

type_synonym pydict = "(string \<times> pyval) list"

fun truthy :: "pyval \<Rightarrow> bool" where
  "truthy PNone = False"
| "truthy (PBool b) = b"
| "truthy (PInt i) = (i \<noteq> 0)"
| "truthy (PStr s) = (s \<noteq> [])"

fun py_str :: "pyval \<Rightarrow> string" where
  "py_str PNone = ''None''"
| "py_str (PBool b) = (if b then ''True'' else ''False'')"
| "py_str (PInt i) = str_int i"
| "py_str (PStr s) = s"

record ReviewRecord =
  statusCode :: int
  statusMessage :: string
  asin :: string
  productTitle :: "string option"
  currentPage :: int
  sortStrategy :: string
  countReviews :: int
  domainCode :: string
  filters :: pydict
  countRatings :: "int option"
  productRating :: "string option"
  reviewSummary :: "summary_dict option"
  reviewId :: "string option"
  text' :: "string option"
  date :: "string option"
  rating :: "string option"
  title :: "string option"
  userName :: "string option"
  numberOfHelpful :: "int option"
  variationId :: "string option"
  imageUrlList :: "string list option"
  videoUrlList :: "string list option"
  variationList :: "string list option"
  verified :: "bool option"
  vine :: "bool option"

record ReviewExtractor =
  domain_cfg :: DomainConfig
  timeout :: int
  max_retries :: int
  proxy :: "string option"
  user_agent :: string

definition default_user_agent :: string where
  "default_user_agent = ''Mozilla/5.0 (Windows NT 10.0; Win64; x64) AppleWebKit/537.36 ''
     @ ''(KHTML, like Gecko) Chrome/124.0.0.0 Safari/537.36''"

text \<open>\<open>ReviewExtractor.__init__\<close>: an absent or empty user agent is replaced by the default.\<close>

definition ReviewExtractor_init ::
  "DomainConfig \<Rightarrow> int \<Rightarrow> int \<Rightarrow> string option \<Rightarrow> string option \<Rightarrow> ReviewExtractor" where
  "ReviewExtractor_init cfg t m p ua =
     \<lparr>domain_cfg = cfg, timeout = t, max_retries = m, proxy = p,
      user_agent = (case ua of None \<Rightarrow> default_user_agent
                    | Some u \<Rightarrow> if u = [] then default_user_agent else u)\<rparr>"

section \<open>URL builder\<close>

text \<open>
  \<open>urllib.parse.urlencode\<close> on a dictionary: every key and the \<open>str()\<close> of every value
  through \<open>quote_plus\<close>, the pairs joined by \<open>&\<close>. \<open>quote_plus\<close> keeps letters, digits
  and \<open>_.-~\<close>, writes a blank as \<open>+\<close> and every other character as the percent-encoded
  bytes of its UTF-8 form.
\<close>

definition is_unreserved :: "char \<Rightarrow> bool" where
  "is_unreserved c = (let n = (of_char c :: nat) in
     (65 \<le> n \<and> n \<le> 90) \<or> (97 \<le> n \<and> n \<le> 122) \<or> (48 \<le> n \<and> n \<le> 57)
     \<or> c \<in> set ''_.-~'')"

definition pct_byte :: "nat \<Rightarrow> string" where
  "pct_byte n = [CHR ''%'', ''0123456789ABCDEF'' ! (n div 16), ''0123456789ABCDEF'' ! (n mod 16)]"

definition utf8_bytes :: "char \<Rightarrow> nat list" where
  "utf8_bytes c = (let n = (of_char c :: nat) in
     if n < 128 then [n] else [192 + n div 64, 128 + n mod 64])"

definition quote_plus_char :: "char \<Rightarrow> string" where
  "quote_plus_char c =
     (if is_unreserved c then [c]
      else if c = CHR '' '' then ''+''
      else concat (map pct_byte (utf8_bytes c)))"

definition quote_plus :: "string \<Rightarrow> string" where
  "quote_plus s = concat (map quote_plus_char s)"

definition urlencode :: "pydict \<Rightarrow> string" where
  "urlencode params =
     join ''&'' (map (\<lambda>(k, v). quote_plus k @ ''='' @ quote_plus (py_str v)) params)"

text \<open>The \<open>params\<close> dictionary of \<open>_build_reviews_url\<close> (lines 170 to 179).\<close>

definition reviews_url_params :: "int \<Rightarrow> string \<Rightarrow> pydict \<Rightarrow> pydict" where
  "reviews_url_params page sort_by fs =
     (let params = [(''pageNumber'', PInt page),
                    (''sortBy'', PStr (if sort_by = ''recent'' then ''recent'' else ''helpful''))];
          params = (case map_of fs ''filterByStar'' of
                      Some v \<Rightarrow> if truthy v then dict_set ''filterByStar'' v params else params
                    | None \<Rightarrow> params);
          params = (case map_of fs ''filterByKeyword'' of
                      Some v \<Rightarrow> if truthy v then dict_set ''filterByKeyword'' v params else params
                    | None \<Rightarrow> params);
          params = (case map_of fs ''verifiedOnly'' of
                      Some v \<Rightarrow> if truthy v
                               then dict_set ''reviewerType'' (PStr ''avp_only_reviews'') params
                               else params
                    | None \<Rightarrow> params)
      in params)"

definition build_reviews_url ::
  "ReviewExtractor \<Rightarrow> string \<Rightarrow> string \<Rightarrow> int \<Rightarrow> string \<Rightarrow> pydict \<Rightarrow> string" where
  "build_reviews_url self a domain_code page sort_by fs =
     (let domain = get_domain (domain_cfg self) domain_code;
          base = ''https://www.amazon.'' @ domain @ ''/product-reviews/'' @ a;
          q = urlencode (reviews_url_params page sort_by fs)
      in base @ ''/ref=cm_cr_arp_d_paging_btm_next_'' @ str_int page @ ''?'' @ q)"

text \<open>
  The parameters the filter set adds, restated from the description of the builder: the
  star filter and the keyword filter when present and truthy, and the verified-only
  reviewer type when \<open>verifiedOnly\<close> is truthy, in this order.
\<close>

definition filter_params :: "pydict \<Rightarrow> pydict" where
  "filter_params fs =
     (case map_of fs ''filterByStar'' of
        Some v \<Rightarrow> if truthy v then [(''filterByStar'', v)] else [] | None \<Rightarrow> [])
     @ (case map_of fs ''filterByKeyword'' of
        Some v \<Rightarrow> if truthy v then [(''filterByKeyword'', v)] else [] | None \<Rightarrow> [])
     @ (case map_of fs ''verifiedOnly'' of
        Some v \<Rightarrow> if truthy v then [(''reviewerType'', PStr ''avp_only_reviews'')] else []
      | None \<Rightarrow> [])"

section \<open>Page fetcher\<close>

text \<open>
  What \<open>requests.get\<close> does is the environment's: it returns a response, with its status
  code and text, or raises an exception. The network is a function from the number of
  requests made before and the request to that outcome. The effects of the extractor are
  kept in a trace: the requests sent, the backoff sleeps with their duration in seconds
  and the pacing sleeps between pages, whose random duration is not modelled. Log output
  is not modelled.
\<close>

record request =
  req_url :: string
  req_timeout :: int
  req_headers :: "(string \<times> string) list"
  req_proxies :: "(string \<times> string) list option"

datatype outcome = Response int string | RequestException string

datatype event = Requested request | Slept rat | Paced

type_synonym world = "event list"
type_synonym network = "nat \<Rightarrow> request \<Rightarrow> outcome"

fun is_request :: "event \<Rightarrow> bool" where
  "is_request (Requested rq) = True"
| "is_request (Slept d) = False"
| "is_request Paced = False"

definition requests_made :: "world \<Rightarrow> nat" where
  "requests_made w = length (filter is_request w)"

definition make_request :: "ReviewExtractor \<Rightarrow> string \<Rightarrow> request" where
  "make_request self url =
     \<lparr>req_url = url, req_timeout = timeout self,
      req_headers = [(''User-Agent'', user_agent self), (''Accept-Language'', ''en-US,en;q=0.9'')],
      req_proxies = (case proxy self of
                       None \<Rightarrow> None
                     | Some p \<Rightarrow> if p = [] then None else Some [(''http'', p), (''https'', p)])\<rparr>"

text \<open>
  The loop of \<open>_http_get\<close> over the attempt numbers: a response with status 200 returns
  its text; any other response and any exception is followed by a sleep of half the
  attempt number in seconds and the next attempt; the end of the loop returns \<open>None\<close>.
\<close>

fun http_attempts :: "network \<Rightarrow> request \<Rightarrow> int list \<Rightarrow> world \<Rightarrow> string option \<times> world" where
  "http_attempts net rq [] w = (None, w)"
| "http_attempts net rq (attempt # rest) w =
     (case net (requests_made w) rq of
        Response status body \<Rightarrow>
          if status = 200 then (Some body, w @ [Requested rq])
          else http_attempts net rq rest (w @ [Requested rq, Slept (of_int attempt / 2)])
      | RequestException e \<Rightarrow>
          http_attempts net rq rest (w @ [Requested rq, Slept (of_int attempt / 2)]))"

definition http_get :: "network \<Rightarrow> ReviewExtractor \<Rightarrow> string \<Rightarrow> world \<Rightarrow> string option \<times> world" where
  "http_get net self url w = http_attempts net (make_request self url) [1..max_retries self] w"

text \<open>
  An outcome that ends the retries, and the trace of a run of failed attempts: each
  request is followed by a sleep of half its attempt number in seconds.
\<close>

fun ok_outcome :: "outcome \<Rightarrow> bool" where
  "ok_outcome (Response status body) = (status = 200)"
| "ok_outcome (RequestException e) = False"

definition backoff_trace :: "request \<Rightarrow> int list \<Rightarrow> world" where
  "backoff_trace rq attempts = concat (map (\<lambda>n. [Requested rq, Slept (of_int n / 2)]) attempts)"

section \<open>Record assembler (\<open>fetch_reviews\<close>, live mode)\<close>

text \<open>
  The record of one review entry (lines 104 to 130). \<open>product_info\<close> and
  \<open>summary_info\<close> are \<open>None\<close> or a dictionary, which is never empty.
\<close>

definition assemble_record ::
  "string \<Rightarrow> string \<Rightarrow> int \<Rightarrow> string \<Rightarrow> pydict \<Rightarrow> product_info option \<Rightarrow> summary_info option
     \<Rightarrow> nat \<Rightarrow> review_fields \<Rightarrow> ReviewRecord" where
  "assemble_record a domain_code page sort_by fs pinfo sinfo n r =
     \<lparr>statusCode = 200, statusMessage = ''FOUND'', asin = a,
      productTitle = (case pinfo of Some p \<Rightarrow> pi_title p | None \<Rightarrow> None),
      currentPage = page, sortStrategy = sort_by, countReviews = int n,
      domainCode = domain_code, filters = fs,
      countRatings = (case sinfo of Some s \<Rightarrow> si_countRatings s | None \<Rightarrow> None),
      productRating = (case sinfo of Some s \<Rightarrow> si_productRating s | None \<Rightarrow> None),
      reviewSummary = (case sinfo of Some s \<Rightarrow> si_summary s | None \<Rightarrow> None),
      reviewId = r_id r, text' = r_text r, date = r_date r, rating = r_rating r,
      title = r_title r, userName = r_user r, numberOfHelpful = r_helpful r,
      variationId = r_variationId r, imageUrlList = r_images r, videoUrlList = r_videos r,
      variationList = r_variations r, verified = Some (r_verified r), vine = Some (r_vine r)\<rparr>"

text \<open>
  The live environment: the network and the parser of \<open>BeautifulSoup(html, "html.parser")\<close>,
  which turns markup text into a document.
\<close>

record live_env =
  net :: network
  html_parser :: "string \<Rightarrow> node"

text \<open>
  The loop over the pages (lines 84 to 134), with \<open>product_info\<close>, \<open>summary_info\<close>
  and \<open>records\<close> as accumulators. No markup, \<open>None\<close> or the empty text, ends the loop.
  An error of a parsing pass leaves the function.
\<close>

fun fetch_pages ::
  "live_env \<Rightarrow> ReviewExtractor \<Rightarrow> string \<Rightarrow> string \<Rightarrow> string \<Rightarrow> pydict \<Rightarrow> int list
     \<Rightarrow> product_info option \<Rightarrow> summary_info option \<Rightarrow> ReviewRecord list \<Rightarrow> world
     \<Rightarrow> (py_error + ReviewRecord list) \<times> world" where
  "fetch_pages env self a domain_code sort_by fs [] pinfo sinfo records w = (Inr records, w)"
| "fetch_pages env self a domain_code sort_by fs (page # pages) pinfo sinfo records w =
     (let url = build_reviews_url self a domain_code page sort_by fs;
          (html, w1) = http_get (net env) self url w
      in case html of
           None \<Rightarrow> (Inr records, w1)
         | Some markup \<Rightarrow>
             if markup = [] then (Inr records, w1)
             else
               (let soup = (html_parser env markup, []);
                    pinfo1 = (case pinfo of
                                None \<Rightarrow> Some (parse_product_info soup)
                              | Some p \<Rightarrow> Some p)
                in case (case sinfo of
                           None \<Rightarrow> (case parse_summary_info soup of
                                       Inl e \<Rightarrow> Inl e | Inr s \<Rightarrow> Inr (Some s))
                         | Some s \<Rightarrow> Inr (Some s)) of
                     Inl e \<Rightarrow> (Inl e, w1)
                   | Inr sinfo1 \<Rightarrow>
                       (case parse_reviews_from_soup soup of
                          Inl e \<Rightarrow> (Inl e, w1)
                        | Inr page_reviews \<Rightarrow>
                            fetch_pages env self a domain_code sort_by fs pages pinfo1 sinfo1
                              (records @ map (assemble_record a domain_code page sort_by fs
                                                pinfo1 sinfo1 (length page_reviews)) page_reviews)
                              (w1 @ [Paced]))))"

section \<open>The pages of a live run\<close>

text \<open>
  The documents the loop parses, in page order: the fetching part of the loop on its own,
  with the same requests and the same pacing.
\<close>

fun fetched_docs ::
  "live_env \<Rightarrow> ReviewExtractor \<Rightarrow> string \<Rightarrow> string \<Rightarrow> string \<Rightarrow> pydict \<Rightarrow> int list \<Rightarrow> world
     \<Rightarrow> tag_obj list" where
  "fetched_docs env self a domain_code sort_by fs [] w = []"
| "fetched_docs env self a domain_code sort_by fs (page # pages) w =
     (case http_get (net env) self (build_reviews_url self a domain_code page sort_by fs) w of
        (None, w1) \<Rightarrow> []
      | (Some markup, w1) \<Rightarrow>
          if markup = [] then []
          else (html_parser env markup, [])
               # fetched_docs env self a domain_code sort_by fs pages (w1 @ [Paced]))"

text \<open>
  The results of the passes over a document, and the records the loop adds for one
  fetched page, given the page-level data it holds at that point.
\<close>

definition entries_of :: "tag_obj \<Rightarrow> review_fields list" where
  "entries_of soup = (case parse_reviews_from_soup soup of Inr rs \<Rightarrow> rs | Inl e \<Rightarrow> [])"

definition summary_of :: "tag_obj \<Rightarrow> summary_info option" where
  "summary_of soup = (case parse_summary_info soup of Inr s \<Rightarrow> Some s | Inl e \<Rightarrow> None)"

definition page_records ::
  "string \<Rightarrow> string \<Rightarrow> string \<Rightarrow> pydict \<Rightarrow> product_info option \<Rightarrow> summary_info option
     \<Rightarrow> int \<times> tag_obj \<Rightarrow> ReviewRecord list" where
  "page_records a domain_code sort_by fs pinfo sinfo pd =
     map (assemble_record a domain_code (fst pd) sort_by fs pinfo sinfo
            (length (entries_of (snd pd)))) (entries_of (snd pd))"

text \<open>
  The page-level data after the first parsed page: what the loop already held, or else
  what the first document gives.
\<close>

definition first_pinfo :: "product_info option \<Rightarrow> tag_obj list \<Rightarrow> product_info option" where
  "first_pinfo pinfo docs =
     (case pinfo of
        Some p \<Rightarrow> Some p
      | None \<Rightarrow> (case docs of [] \<Rightarrow> None | d # ds \<Rightarrow> Some (parse_product_info d)))"

definition first_sinfo :: "summary_info option \<Rightarrow> tag_obj list \<Rightarrow> summary_info option" where
  "first_sinfo sinfo docs =
     (case sinfo of
        Some s \<Rightarrow> Some s
      | None \<Rightarrow> (case docs of [] \<Rightarrow> None | d # ds \<Rightarrow> summary_of d))"

section \<open>Mock generator\<close>

text \<open>
  The interpreter's part in \<open>_generate_mock\<close>. The \<open>random\<close> module is a generator
  state \<open>'g\<close> with its operations: \<open>seed\<close> makes a state from an integer alone, and every
  draw returns a value and the next state. A float is a value of \<open>'f\<close>, read only
  through the text of its rounding to one decimal. \<open>random.choice\<close> draws an index below
  the length of the list.
\<close>

record ('g, 'f) py_random =
  rand_seed :: "int \<Rightarrow> 'g"
  rand_randint :: "int \<Rightarrow> int \<Rightarrow> 'g \<Rightarrow> int \<times> 'g"
  rand_uniform :: "rat \<Rightarrow> rat \<Rightarrow> 'g \<Rightarrow> 'f \<times> 'g"
  rand_below :: "nat \<Rightarrow> 'g \<Rightarrow> nat \<times> 'g"
  round1_str :: "'f \<Rightarrow> string"

definition choice :: "('g, 'f) py_random \<Rightarrow> 'a list \<Rightarrow> 'g \<Rightarrow> 'a \<times> 'g" where
  "choice R xs g = (let (i, g1) = rand_below R (length xs) g in (xs ! (i mod length xs), g1))"

text \<open>
  The built-in \<open>hash\<close> on the pair of strings is a function \<open>H\<close> of the interpreter
  process: CPython salts the hash of a string with a key it draws when the process
  starts, unless \<open>PYTHONHASHSEED\<close> fixes it. The clock is a function from the number of
  readings made before to the text \<open>datetime.utcnow().strftime("Reviewed on %d %B %Y")\<close>
  gives at that reading.
\<close>

type_synonym py_hash = "string \<times> string \<Rightarrow> int"
type_synonym clock = "nat \<Rightarrow> string"

text \<open>
  One record (lines 303 to 331): the draws in the order the source makes them. The star
  of the title, U+2605, is written as its three UTF-8 bytes.
\<close>

definition mock_record ::
  "('g, 'f) py_random \<Rightarrow> clock \<Rightarrow> string \<Rightarrow> string \<Rightarrow> pydict \<Rightarrow> string \<Rightarrow> int \<Rightarrow> int
     \<Rightarrow> int \<Rightarrow> string \<Rightarrow> string \<Rightarrow> summary_dict \<Rightarrow> 'g \<times> nat \<Rightarrow> ReviewRecord \<times> ('g \<times> nat)" where
  "mock_record R clk a domain_code fs sort_by page page_size total' product_title
     product_rating summary st =
     (let (g, k) = st;
          (n, g1) = rand_randint R (10 ^ 12) (10 ^ 13 - 1) g;
          rid = ''R'' @ str_int n;
          (stars, g2) = choice R [5, 4, 3, 2, 1 :: int] g1;
          now = clk k;
          (user, g3) = choice R [''Alex'', ''Jordan'', ''Taylor'', ''Sam'', ''Casey'', ''Riley''] g2;
          (helpful, g4) = rand_randint R 0 25 g3;
          (variation, g5) = choice R [''Color: Black'', ''Size: Large'', ''Style: Single''] g4;
          (is_verified, g6) = choice R [True, False, True] g5
      in (\<lparr>statusCode = 200, statusMessage = ''FOUND'', asin = a,
           productTitle = Some product_title, currentPage = page, sortStrategy = sort_by,
           countReviews = page_size, domainCode = domain_code, filters = fs,
           countRatings = Some total', productRating = Some product_rating,
           reviewSummary = Some summary, reviewId = Some rid,
           text' = Some (''This is a mock review text '' @ rid @ '' for ASIN '' @ a
                         @ ''. Works well.''),
           date = Some now,
           rating = Some (str_int stars @ ''.0 out of 5 stars''),
           title = Some (''Great product ('' @ str_int stars @ [CHR 0xE2, CHR 0x98, CHR 0x85]
                         @ '')''),
           userName = Some user, numberOfHelpful = Some helpful, variationId = Some a,
           imageUrlList = None, videoUrlList = None, variationList = Some [variation],
           verified = Some is_verified, vine = Some False\<rparr>,
          (g6, Suc k)))"

text \<open>The inner loop, over \<open>range(page_size)\<close>, and the outer loop, over the pages.\<close>

fun mock_page ::
  "('g, 'f) py_random \<Rightarrow> clock \<Rightarrow> string \<Rightarrow> string \<Rightarrow> pydict \<Rightarrow> string \<Rightarrow> int \<Rightarrow> int
     \<Rightarrow> int \<Rightarrow> string \<Rightarrow> string \<Rightarrow> summary_dict \<Rightarrow> int list \<Rightarrow> ReviewRecord list
     \<Rightarrow> 'g \<times> nat \<Rightarrow> ReviewRecord list \<times> ('g \<times> nat)" where
  "mock_page R clk a domain_code fs sort_by page page_size total' product_title
     product_rating summary [] records st = (records, st)"
| "mock_page R clk a domain_code fs sort_by page page_size total' product_title
     product_rating summary (i # rest) records st =
     (let (rec, st1) = mock_record R clk a domain_code fs sort_by page page_size total'
                         product_title product_rating summary st
      in mock_page R clk a domain_code fs sort_by page page_size total' product_title
           product_rating summary rest (records @ [rec]) st1)"

fun mock_pages ::
  "('g, 'f) py_random \<Rightarrow> clock \<Rightarrow> string \<Rightarrow> string \<Rightarrow> pydict \<Rightarrow> string
     \<Rightarrow> int \<Rightarrow> string \<Rightarrow> string \<Rightarrow> summary_dict \<Rightarrow> int list \<Rightarrow> ReviewRecord list
     \<Rightarrow> 'g \<times> nat \<Rightarrow> ReviewRecord list \<times> ('g \<times> nat)" where
  "mock_pages R clk a domain_code fs sort_by total' product_title product_rating summary
     [] records st = (records, st)"
| "mock_pages R clk a domain_code fs sort_by total' product_title product_rating summary
     (page # pages) records st =
     (let (g, k) = st;
          (page_size, g1) = rand_randint R 5 12 g;
          (records1, st1) = mock_page R clk a domain_code fs sort_by page page_size total'
                              product_title product_rating summary [0..page_size - 1]
                              records (g1, k)
      in mock_pages R clk a domain_code fs sort_by total' product_title product_rating
           summary pages records1 st1)"

definition generate_mock ::
  "('g, 'f) py_random \<Rightarrow> py_hash \<Rightarrow> clock \<Rightarrow> string \<Rightarrow> string \<Rightarrow> int \<Rightarrow> pydict \<Rightarrow> string
     \<Rightarrow> ReviewRecord list" where
  "generate_mock R H clk a domain_code max_pages fs sort_by =
     (let g = rand_seed R (H (a, domain_code) AND 0xFFFFFFFF);
          (n, g) = rand_randint R 5 15 g;
          total' = n * max_pages;
          product_title = ''Mock Product for '' @ a;
          (u, g) = rand_uniform R (38 / 10) (49 / 10) g;
          product_rating = round1_str R u @ '' out of 5'';
          (p5, g) = rand_randint R 50 90 g;
          (p4, g) = rand_randint R 5 30 g;
          (p3, g) = rand_randint R 1 15 g;
          (p2, g) = rand_randint R 0 5 g;
          (p1, g) = rand_randint R 0 5 g;
          summary = [(''fiveStar'', [(''percentage'', p5)]), (''fourStar'', [(''percentage'', p4)]),
                     (''threeStar'', [(''percentage'', p3)]), (''twoStar'', [(''percentage'', p2)]),
                     (''oneStar'', [(''percentage'', p1)])]
      in fst (mock_pages R clk a domain_code fs sort_by total' product_title product_rating
                summary [1..max_pages] [] (g, 0)))"

text \<open>A record with its \<open>date\<close> field blanked: what two runs are compared on.\<close>

definition erase_date :: "ReviewRecord \<Rightarrow> ReviewRecord" where
  "erase_date r = r\<lparr>date := None\<rparr>"

section \<open>\<open>fetch_reviews\<close>\<close>

text \<open>\<open>filters or {}\<close>, then the mock generator or the loop over the pages.\<close>

definition fetch_reviews ::
  "live_env \<Rightarrow> ('g, 'f) py_random \<Rightarrow> py_hash \<Rightarrow> clock \<Rightarrow> ReviewExtractor \<Rightarrow> string \<Rightarrow> string
     \<Rightarrow> int \<Rightarrow> pydict option \<Rightarrow> string \<Rightarrow> bool \<Rightarrow> world
     \<Rightarrow> (py_error + ReviewRecord list) \<times> world" where
  "fetch_reviews env R H clk self a domain_code max_pages fs_opt sort_by mock w =
     (let fs = (case fs_opt of None \<Rightarrow> [] | Some f \<Rightarrow> f)
      in if mock then (Inr (generate_mock R H clk a domain_code max_pages fs sort_by), w)
         else fetch_pages env self a domain_code sort_by fs [1..max_pages] None None [] w)"

section \<open>Sample documents\<close>

text \<open>Three review entries: with a count in the helpful-votes text, with no digit in it, and with no helpful-votes element.\<close>

definition sample_review_1 :: node where
  "sample_review_1 = Element ''div'' [(''data-hook'', ''review''), (''id'', ''R1'')]
     [Element ''a'' [(''data-hook'', ''review-title'')] [Element ''span'' [] [Text NavigableString '' Great '']],
      Element ''span'' [(''class'', ''a-profile-name'')] [Text NavigableString ''Bob''],
      Element ''span'' [(''data-hook'', ''helpful-vote-statement'')]
        [Text NavigableString ''12 of 30 people found this helpful''],
      Element ''img'' [(''class'', ''review-image-tile''), (''src'', ''a.jpg'')] []]"

definition sample_review_2 :: node where
  "sample_review_2 = Element ''div'' [(''data-hook'', ''review'')]
     [Element ''span'' [(''data-hook'', ''helpful-vote-statement'')]
        [Text NavigableString ''One person found this helpful'']]"


text \<open>A page with product data, a rating summary and two review entries.\<close>

definition sample_page :: node where
  "sample_page = Element ''[document]'' []
     [Element ''div'' [(''id'', ''cm_cr-product_info'')] [Element ''h1'' [] [Text NavigableString ''Widget'']],
      Element ''span'' [(''data-hook'', ''rating-out-of-text'')] [Text NavigableString ''4.5 out of 5''],
      Element ''div'' [(''data-hook'', ''total-review-count'')]
        [Element ''span'' [] [Text NavigableString ''1,234 global ratings'']],
      sample_review_1, sample_review_2]"

text \<open>An extractor with three attempts per page and one alias in its domain table.\<close>

definition sample_extractor :: ReviewExtractor where
  "sample_extractor = ReviewExtractor_init
     \<lparr>domain_map = [''uk'' \<mapsto> ''co.uk''], default_code = ''com''\<rparr> 20 3 None None"

text \<open>
  A network that fails every request, by an exception or by status 503 in turn, and one
  that answers the third request with status 200.
\<close>

definition failing_net :: network where
  "failing_net n rq = (if even n then RequestException ''timed out'' else Response 503 ''busy'')"

definition flaky_net :: network where
  "flaky_net n rq = (if n = 0 then RequestException ''timed out''
                     else if n = 1 then Response 503 ''busy''
                     else Response 200 ''<html>'')"

definition sample_request :: request where
  "sample_request = make_request sample_extractor ''u''"

text \<open>
  A generator for the samples: its state is a counter that the seed sets and every draw
  advances, and a draw is the counter reduced into the range asked for. Two hash
  functions, standing for two interpreter processes with different salts. A clock, and a
  live environment whose parser answers every markup with the sample page.
\<close>

definition counter_random :: "(nat, rat) py_random" where
  "counter_random =
     \<lparr>rand_seed = (\<lambda>s. nat s),
      rand_randint = (\<lambda>lo hi g. (lo + int g mod (hi - lo + 1), Suc g)),
      rand_uniform = (\<lambda>lo hi g. (lo, Suc g)),
      rand_below = (\<lambda>n g. (g mod n, Suc g)),
      round1_str = (\<lambda>f. ''3.8'')\<rparr>"

definition process_hash_1 :: py_hash where
  "process_hash_1 p = int (length (fst p))"

definition process_hash_2 :: py_hash where
  "process_hash_2 p = int (length (fst p)) + 1"

definition sample_clock :: clock where
  "sample_clock k = ''Reviewed on 03 November 2026''"

definition sample_env :: live_env where
  "sample_env = \<lparr>net = flaky_net, html_parser = (\<lambda>markup. sample_page)\<rparr>"

text \<open>
  A run of 4301 digits, one more than the interpreter converts; a review entry whose
  helpful-votes text is that run, on a page of its own; and a page whose histogram row
  for five stars reads that run followed by a percent sign.
\<close>

definition long_digits :: string where
  "long_digits = replicate 4301 CHR ''7''"

definition long_helpful_el :: node where
  "long_helpful_el = Element ''span'' [(''data-hook'', ''helpful-vote-statement'')]
     [Text NavigableString long_digits]"

definition long_helpful_review :: node where
  "long_helpful_review = Element ''div'' [(''data-hook'', ''review''), (''id'', ''R9'')]
     [long_helpful_el]"

definition long_helpful_page :: node where
  "long_helpful_page = Element ''[document]'' [] [long_helpful_review]"

definition long_histogram_cell :: node where
  "long_histogram_cell = Element ''td'' [(''class'', ''a-text-right'')]
     [Text NavigableString (long_digits @ ''%'')]"

definition long_histogram_row :: node where
  "long_histogram_row = Element ''tr'' [(''class'', ''a-histogram-row five-star'')]
     [long_histogram_cell]"

definition long_histogram_table :: node where
  "long_histogram_table = Element ''table'' [(''id'', ''histogramTable'')] [long_histogram_row]"

definition long_histogram_page :: node where
  "long_histogram_page = Element ''[document]'' [] [long_histogram_table]"

section \<open>Properties of the domain resolver\<close>









section \<open>Properties of the conversions and searches\<close>

lemma decimal_value_snoc: "decimal_value (s @ [c]) = 10 * decimal_value s + digit_value c"
proof -
  have "(\<Sum>i<length s. digit_value ((s @ [c]) ! i) * 10 ^ (length (s @ [c]) - Suc i))
      = (\<Sum>i<length s. 10 * (digit_value (s ! i) * 10 ^ (length s - Suc i)))"
  proof (rule sum.cong)
    fix i assume "i \<in> {..<length s}"
    then have i: "i < length s" by simp
    then have "length (s @ [c]) - Suc i = Suc (length s - Suc i)" by simp
    with i show "digit_value ((s @ [c]) ! i) * 10 ^ (length (s @ [c]) - Suc i)
        = 10 * (digit_value (s ! i) * 10 ^ (length s - Suc i))"
      by (simp add: nth_append)
  qed simp
  then show ?thesis
    by (simp add: decimal_value_def sum_distrib_left)
qed

lemma foldl_decimal_value:
  "foldl (\<lambda>acc c. 10 * acc + digit_value c) 0 s = decimal_value s"
proof (induction s rule: rev_induct)
  case Nil
  show ?case by (simp add: decimal_value_def)
next
  case (snoc c s)
  then show ?case by (simp add: decimal_value_snoc)
qed

lemma py_int_digits:
  "s \<noteq> [] \<Longrightarrow> list_all is_digit s \<Longrightarrow> length s \<le> max_str_digits
   \<Longrightarrow> py_int s = Inr (decimal_value s)"
  by (simp add: py_int_def foldl_decimal_value)

lemma py_int_too_long: "max_str_digits < length s \<Longrightarrow> py_int s = Inl ValueError"
  by (simp add: py_int_def)

lemma py_int_run:
  "s \<noteq> [] \<Longrightarrow> list_all is_digit s
   \<Longrightarrow> py_int s = (if length s \<le> max_str_digits then Inr (decimal_value s)
                   else Inl ValueError)"
  by (simp add: py_int_digits py_int_too_long)



lemma re_search_digits_first_run:
  assumes "\<not> list_ex is_digit pre" and "run \<noteq> []" and "list_all is_digit run"
    and "post = [] \<or> \<not> is_digit (hd post)"
  shows "re_search_digits (pre @ run @ post) = Some run"
proof -
  from assms(1) have "dropWhile (\<lambda>c. \<not> is_digit c) (pre @ run @ post)
      = dropWhile (\<lambda>c. \<not> is_digit c) (run @ post)"
    by (simp add: list_ex_iff dropWhile_append2)
  also from assms(2,3) have "\<dots> = run @ post"
    by (cases run) simp_all
  finally have d: "dropWhile (\<lambda>c. \<not> is_digit c) (pre @ run @ post) = run @ post" .
  from assms(4) have "takeWhile is_digit post = []"
    by (cases post) auto
  with assms(3) have t: "takeWhile is_digit (run @ post) = run"
    by (simp add: list_all_iff takeWhile_append2)
  from assms(2) obtain c cs where "run @ post = c # cs"
    by (cases run) auto
  with d t show ?thesis
    by (simp add: re_search_digits_def)
qed

lemma re_search_digits_Some:
  assumes "re_search_digits s = Some g"
  shows "g \<noteq> [] \<and> list_all is_digit g"
proof -
  from assms obtain c cs where d: "dropWhile (\<lambda>c. \<not> is_digit c) s = c # cs"
      and g: "g = takeWhile is_digit (c # cs)"
    by (auto simp: re_search_digits_def split: list.splits)
  have "\<not> \<not> is_digit (hd (dropWhile (\<lambda>c. \<not> is_digit c) s))"
    by (rule hd_dropWhile) (simp add: d)
  with d have "is_digit c" by simp
  with g have "g = c # takeWhile is_digit cs" by simp
  moreover have "list_all is_digit (takeWhile is_digit cs)"
    by (simp add: list_all_iff) (meson set_takeWhileD)
  ultimately show ?thesis
    using \<open>is_digit c\<close> by simp
qed

lemma re_search_percent_Some:
  "re_search_percent s = Some g \<Longrightarrow> g \<noteq> [] \<and> list_all is_digit g"
proof (induction s rule: re_search_percent.induct)
  case 1
  then show ?case by simp
next
  case (2 c cs)
  have tw: "list_all is_digit (takeWhile is_digit cs)"
    by (simp add: list_all_iff) (meson set_takeWhileD)
  show ?case
  proof (cases "is_digit c")
    case False
    with 2 show ?thesis by simp
  next
    case True
    note dc = this
    show ?thesis
    proof (cases "dropWhile is_digit cs")
      case Nil
      with 2 dc show ?thesis by simp
    next
      case (Cons d ds)
      show ?thesis
      proof (cases "d = CHR ''%''")
        case True
        with 2(3) dc Cons tw show ?thesis by auto
      next
        case False
        with 2(1) [OF dc Cons False] 2(3) dc Cons show ?thesis by simp
      qed
    qed
  qed
qed

lemma re_search_digits_run:
  "run \<noteq> [] \<Longrightarrow> list_all is_digit run \<Longrightarrow> re_search_digits run = Some run"
  using re_search_digits_first_run [of "[]" run "[]"] by simp

lemma re_search_percent_run:
  assumes "run \<noteq> []" and "list_all is_digit run"
  shows "re_search_percent (run @ CHR ''%'' # rest) = Some run"
proof -
  from assms obtain c cs where r: "run = c # cs" "is_digit c" "list_all is_digit cs"
    by (cases run) auto
  have p: "\<not> is_digit CHR ''%''"
    by (simp add: is_digit_def)
  from r(3) p have d: "dropWhile is_digit (cs @ CHR ''%'' # rest) = CHR ''%'' # rest"
    by (simp add: list_all_iff dropWhile_append2)
  from r(3) p have t: "takeWhile is_digit (cs @ CHR ''%'' # rest) = cs"
    by (simp add: list_all_iff takeWhile_append2)
  from r(1,2) d t show ?thesis
    by simp
qed

lemma long_digits_facts:
  "long_digits \<noteq> []" "list_all is_digit long_digits" "length long_digits = 4301"
  by (simp_all add: long_digits_def is_digit_def list_all_iff)

lemma py_int_long_digits: "py_int long_digits = Inl ValueError"
  by (rule py_int_too_long) (simp add: long_digits_facts max_str_digits_def)

section \<open>What the passes return\<close>

lemma parse_helpful_cases:
  "parse_helpful entry =
     (case select_one sel_helpful entry of
        None \<Rightarrow> Inr None
      | Some el \<Rightarrow>
          (case re_search_digits (get_text [] False el) of
             None \<Rightarrow> Inr (Some 0)
           | Some g \<Rightarrow> if length g \<le> max_str_digits then Inr (Some (decimal_value g))
                       else Inl ValueError))"
proof (cases "select_one sel_helpful entry")
  case None
  then show ?thesis by (simp add: parse_helpful_def)
next
  case (Some el)
  note el = this
  show ?thesis
  proof (cases "re_search_digits (get_text [] False el)")
    case None
    with el show ?thesis by (simp add: parse_helpful_def)
  next
    case (Some g)
    then have "g \<noteq> [] \<and> list_all is_digit g"
      by (rule re_search_digits_Some)
    then have "py_int g = (if length g \<le> max_str_digits then Inr (decimal_value g)
        else Inl ValueError)"
      by (simp add: py_int_run)
    with Some el show ?thesis
      by (simp add: parse_helpful_def)
  qed
qed

lemma parse_review_helpful:
  "parse_review entry = Inr r \<Longrightarrow> parse_helpful entry = Inr (r_helpful r)"
  by (auto simp: parse_review_def Let_def split: sum.splits)


lemma parse_review_raises:
  "parse_helpful entry = Inl e \<Longrightarrow> parse_review entry = Inl e"
  by (simp add: parse_review_def Let_def)

lemma star_loop_none:
  "\<forall>star \<in> set stars. select_one (sel_histogram star) soup = None
     \<Longrightarrow> star_loop soup stars summary = Inr summary"
  by (induction stars arbitrary: summary) simp_all

lemma parse_entries_Inr:
  "parse_entries es = Inr rs
   \<Longrightarrow> length rs = length es \<and> (\<forall>i < length es. parse_review (es ! i) = Inr (rs ! i))"
proof (induction es arbitrary: rs)
  case Nil
  then show ?case by simp
next
  case (Cons e es)
  from Cons.prems obtain r rs' where r: "parse_review e = Inr r"
      and rs': "parse_entries es = Inr rs'" and rs: "rs = r # rs'"
    by (auto split: sum.splits)
  from Cons.IH [OF rs'] have l: "length rs' = length es"
      and n: "\<forall>i < length es. parse_review (es ! i) = Inr (rs' ! i)"
    by simp_all
  have "\<forall>i < length (e # es). parse_review ((e # es) ! i) = Inr ((r # rs') ! i)"
    using r n by (auto simp: nth_Cons split: nat.splits)
  with l rs show ?case by simp
qed

lemma parse_entries_returns:
  "\<forall>e \<in> set es. \<exists>r. parse_review e = Inr r \<Longrightarrow> \<exists>rs. parse_entries es = Inr rs"
proof (induction es)
  case Nil
  show ?case by simp
next
  case (Cons e es)
  then obtain r rs where "parse_review e = Inr r" "parse_entries es = Inr rs"
    by auto
  then show ?case by simp
qed

lemma parse_reviews_from_soup_Inr:
  "parse_reviews_from_soup soup = Inr rs
   \<Longrightarrow> length rs = length (select sel_review soup)
     \<and> (\<forall>i < length rs. parse_review (select sel_review soup ! i) = Inr (rs ! i))"
  using parse_entries_Inr [of "select sel_review soup" rs]
  by (simp add: parse_reviews_from_soup_def)

lemma parse_review_fields:
  assumes "parse_review entry = Inr r"
  shows "r_id r = get_attr ''id'' entry"
    and "r_title r = text_of_first sel_review_title [] entry"
    and "r_rating r = text_of_first sel_review_rating [] entry"
    and "r_user r = text_of_first sel_profile_name [] entry"
    and "r_date r = text_of_first sel_review_date [] entry"
    and "r_text r = text_of_first sel_review_body '' '' entry"
    and "r_verified r = (select_one sel_avp_badge entry \<noteq> None)"
    and "r_vine r = (select_one sel_vine_badge entry \<noteq> None)"
    and "r_images r = or_None (src_list (select sel_image_tile entry))"
    and "r_videos r = or_None (src_list (select sel_video_source entry))"
    and "r_variations r = or_None (case select_one sel_format_strip entry of
            Some var_el \<Rightarrow> [get_text '' '' True var_el] | None \<Rightarrow> [])"
    and "r_variationId r = None"
proof -
  from assms have h: "parse_helpful entry = Inr (r_helpful r)"
    by (rule parse_review_helpful)
  from assms have r: "r = \<lparr>r_id = get_attr ''id'' entry,
      r_title = text_of_first sel_review_title [] entry,
      r_rating = text_of_first sel_review_rating [] entry,
      r_user = text_of_first sel_profile_name [] entry,
      r_date = text_of_first sel_review_date [] entry,
      r_text = text_of_first sel_review_body '' '' entry, r_helpful = r_helpful r,
      r_verified = (select_one sel_avp_badge entry \<noteq> None),
      r_vine = (select_one sel_vine_badge entry \<noteq> None),
      r_images = or_None (src_list (select sel_image_tile entry)),
      r_videos = or_None (src_list (select sel_video_source entry)),
      r_variations = or_None (case select_one sel_format_strip entry of
            Some var_el \<Rightarrow> [get_text '' '' True var_el] | None \<Rightarrow> []),
      r_variationId = None\<rparr>"
    by (simp add: parse_review_def Let_def h)
  show "r_id r = get_attr ''id'' entry" by (subst r) simp
  show "r_title r = text_of_first sel_review_title [] entry" by (subst r) simp
  show "r_rating r = text_of_first sel_review_rating [] entry" by (subst r) simp
  show "r_user r = text_of_first sel_profile_name [] entry" by (subst r) simp
  show "r_date r = text_of_first sel_review_date [] entry" by (subst r) simp
  show "r_text r = text_of_first sel_review_body '' '' entry" by (subst r) simp
  show "r_verified r = (select_one sel_avp_badge entry \<noteq> None)" by (subst r) simp
  show "r_vine r = (select_one sel_vine_badge entry \<noteq> None)" by (subst r) simp
  show "r_images r = or_None (src_list (select sel_image_tile entry))" by (subst r) simp
  show "r_videos r = or_None (src_list (select sel_video_source entry))" by (subst r) simp
  show "r_variations r = or_None (case select_one sel_format_strip entry of
            Some var_el \<Rightarrow> [get_text '' '' True var_el] | None \<Rightarrow> [])" by (subst r) simp
  show "r_variationId r = None" by (subst r) simp
qed

lemma parse_summary_info_raises:
  "star_loop soup [''five'', ''four'', ''three'', ''two'', ''one''] [] = Inl e
   \<Longrightarrow> parse_summary_info soup = Inl e"
  by (simp add: parse_summary_info_def Let_def)

lemma parse_summary_info_returns:
  "star_loop soup [''five'', ''four'', ''three'', ''two'', ''one''] [] = Inr summary
   \<Longrightarrow> \<exists>s. parse_summary_info soup = Inr s"
  by (simp add: parse_summary_info_def Let_def)

section \<open>Helpful count\<close>







section \<open>The extractor raises on a long run of digits\<close>

lemma long_helpful_select:
  "select sel_review (long_helpful_page, []) = [(long_helpful_review, [long_helpful_page])]"
  "select_one sel_helpful (long_helpful_review, [long_helpful_page])
     = Some (long_helpful_el, [long_helpful_review, long_helpful_page])"
  by (simp_all add: select_one_def select_def descendants_def match_selector_def
      match_chain_def matches_compound_def sel_review_def sel_helpful_def
      long_helpful_page_def long_helpful_review_def long_helpful_el_def)

lemma long_helpful_text:
  "get_text [] False (long_helpful_el, [long_helpful_review, long_helpful_page]) = long_digits"
  by (simp add: get_text_def interesting_string_types_def long_helpful_el_def)

lemma long_helpful_raises:
  "parse_review (long_helpful_review, [long_helpful_page]) = Inl ValueError"
proof (rule parse_review_raises)
  have "re_search_digits long_digits = Some long_digits"
    by (rule re_search_digits_run) (rule long_digits_facts)+
  then show "parse_helpful (long_helpful_review, [long_helpful_page]) = Inl ValueError"
    by (simp add: parse_helpful_cases long_helpful_select long_helpful_text long_digits_facts
        max_str_digits_def)
qed

lemma long_histogram_select:
  "select_one (sel_histogram ''five'') (long_histogram_page, [])
     = Some (long_histogram_cell,
             [long_histogram_row, long_histogram_table, long_histogram_page])"
  by (simp add: select_one_def select_def descendants_def match_selector_def
      match_chain_def matches_compound_def sel_histogram_def is_space_def
      long_histogram_page_def long_histogram_table_def long_histogram_row_def
      long_histogram_cell_def)

lemma long_histogram_text:
  "get_text [] False (long_histogram_cell,
       [long_histogram_row, long_histogram_table, long_histogram_page])
     = long_digits @ CHR ''%'' # []"
  by (simp add: get_text_def interesting_string_types_def long_histogram_cell_def)

text \<open>
  C6 fails on the code. The conversions \<open>int(m.group(1))\<close> of the helpful count (line
  245) and of a histogram percentage (line 219) are outside any \<open>try\<close>, unlike the
  conversion of the rating count (line 209), and the interpreter refuses to convert
  more than 4300 digits. A page with one review entry whose helpful-votes text is a run
  of 4301 digits makes the review pass raise \<open>ValueError\<close>, and a page whose five-star
  histogram cell reads 4301 digits and a percent sign makes the summary pass raise it.
\<close>

theorem extractor_raises_on_long_digits:
  "parse_reviews_from_soup (long_helpful_page, []) = Inl ValueError
   \<and> parse_summary_info (long_histogram_page, []) = Inl ValueError"
proof (rule conjI)
  show "parse_reviews_from_soup (long_helpful_page, []) = Inl ValueError"
    by (simp add: parse_reviews_from_soup_def long_helpful_select long_helpful_raises)
next
  have "re_search_percent (long_digits @ CHR ''%'' # []) = Some long_digits"
    by (rule re_search_percent_run) (rule long_digits_facts)+
  then have "star_loop (long_histogram_page, []) [''five'', ''four'', ''three'', ''two'', ''one''] []
      = Inl ValueError"
    by (simp add: long_histogram_select long_histogram_text py_int_long_digits)
  then show "parse_summary_info (long_histogram_page, []) = Inl ValueError"
    by (rule parse_summary_info_raises)
qed

section \<open>Properties of the URL builder\<close>

lemma str_nat_digits: "set (str_nat n) \<subseteq> set ''0123456789''"
proof (induction n rule: str_nat.induct)
  case (1 n)
  have d: "''0123456789'' ! k \<in> set ''0123456789''" if "k < 10" for k
    using that by (intro nth_mem) simp
  show ?case
  proof (cases "n < 10")
    case True
    then show ?thesis
      using d [of n] by (subst str_nat.simps) simp
  next
    case False
    have "n mod 10 < 10" by simp
    with False 1 d [of "n mod 10"] show ?thesis
      by (subst str_nat.simps) simp
  qed
qed

lemma quote_plus_unreserved: "\<forall>c \<in> set s. is_unreserved c \<Longrightarrow> quote_plus s = s"
  by (induction s) (simp_all add: quote_plus_def quote_plus_char_def)

lemma digits_unreserved: "c \<in> set ''0123456789'' \<Longrightarrow> is_unreserved c"
  by (auto simp: is_unreserved_def)

lemma quote_plus_str_int: "quote_plus (str_int i) = str_int i"
proof (rule quote_plus_unreserved, rule ballI)
  fix c assume c: "c \<in> set (str_int i)"
  have m: "is_unreserved CHR ''-''"
    by (simp add: is_unreserved_def)
  from c have "c = CHR ''-'' \<or> c \<in> set (str_nat (nat (- i))) \<or> c \<in> set (str_nat (nat i))"
    by (auto simp: str_int_def split: if_splits)
  then have "c = CHR ''-'' \<or> c \<in> set ''0123456789''"
    using str_nat_digits [of "nat (- i)"] str_nat_digits [of "nat i"] by blast
  with m show "is_unreserved c"
    using digits_unreserved by blast
qed

lemma quote_plus_keys:
  "quote_plus ''pageNumber'' = ''pageNumber''" "quote_plus ''sortBy'' = ''sortBy''"
  "quote_plus ''recent'' = ''recent''" "quote_plus ''helpful'' = ''helpful''"
  by (simp_all add: quote_plus_def quote_plus_char_def is_unreserved_def)


lemma dict_set_fresh: "k \<notin> fst ` set d \<Longrightarrow> dict_set k v d = d @ [(k, v)]"
  by (induction d) auto

lemma reviews_url_params_eq:
  "reviews_url_params page sort_by fs =
     [(''pageNumber'', PInt page),
      (''sortBy'', PStr (if sort_by = ''recent'' then ''recent'' else ''helpful''))]
     @ filter_params fs"
  by (simp add: reviews_url_params_def filter_params_def Let_def dict_set_fresh
      split: option.splits)

lemma filter_params_keys:
  "fst ` set (filter_params fs) \<subseteq> {''filterByStar'', ''filterByKeyword'', ''reviewerType''}"
  by (auto simp: filter_params_def split: option.splits if_splits)


lemma urlencode_Cons:
  "urlencode (p # ps)
     = (case p of (k, v) \<Rightarrow> quote_plus k @ ''='' @ quote_plus (py_str v))
       @ concat (map (\<lambda>(k, v). ''&'' @ quote_plus k @ ''='' @ quote_plus (py_str v)) ps)"
  by (induction ps arbitrary: p) (auto simp: urlencode_def)

lemma urlencode_reviews_url_params:
  "urlencode (reviews_url_params page sort_by fs)
     = ''pageNumber='' @ str_int page
       @ ''&sortBy='' @ (if sort_by = ''recent'' then ''recent'' else ''helpful'')
       @ concat (map (\<lambda>(k, v). ''&'' @ quote_plus k @ ''='' @ quote_plus (py_str v))
                   (filter_params fs))"
proof (cases "sort_by = ''recent''")
  case True
  then show ?thesis
    by (simp add: reviews_url_params_eq urlencode_Cons quote_plus_keys quote_plus_str_int)
next
  case False
  then show ?thesis
    by (simp add: reviews_url_params_eq urlencode_Cons quote_plus_keys quote_plus_str_int)
qed

lemma sortBy_not_filter_key: "(''sortBy'', v) \<notin> set (filter_params fs)"
  using filter_params_keys [of fs] by (auto simp: image_subset_iff)

text \<open>
  C8. The URL is a function of the extractor's domain table and the five arguments and
  of nothing else, so equal inputs give the same string. It is the base path and the
  paging segment followed by the query \<open>pageNumber\<close>, \<open>sortBy\<close> and the filter
  parameters; \<open>sortBy\<close> occurs once in the parameters, and its value is \<open>recent\<close> when
  \<open>sort_by\<close> is \<open>recent\<close> and \<open>helpful\<close> for every other \<open>sort_by\<close>.
\<close>

theorem build_reviews_url_sort_by:
  "build_reviews_url self a domain_code page sort_by fs
     = ''https://www.amazon.'' @ get_domain (domain_cfg self) domain_code
       @ ''/product-reviews/'' @ a
       @ ''/ref=cm_cr_arp_d_paging_btm_next_'' @ str_int page
       @ ''?pageNumber='' @ str_int page
       @ ''&sortBy='' @ (if sort_by = ''recent'' then ''recent'' else ''helpful'')
       @ concat (map (\<lambda>(k, v). ''&'' @ quote_plus k @ ''='' @ quote_plus (py_str v))
                   (filter_params fs))
   \<and> map_of (reviews_url_params page sort_by fs) ''sortBy''
       = Some (PStr (if sort_by = ''recent'' then ''recent'' else ''helpful''))
   \<and> length (filter (\<lambda>(k, v). k = ''sortBy'') (reviews_url_params page sort_by fs)) = 1
   \<and> (self = self' \<and> a = a' \<and> domain_code = domain_code' \<and> page = page'
        \<and> sort_by = sort_by' \<and> fs = fs'
      \<longrightarrow> build_reviews_url self a domain_code page sort_by fs
          = build_reviews_url self' a' domain_code' page' sort_by' fs')"
proof (intro conjI impI)
  show "build_reviews_url self a domain_code page sort_by fs
     = ''https://www.amazon.'' @ get_domain (domain_cfg self) domain_code
       @ ''/product-reviews/'' @ a
       @ ''/ref=cm_cr_arp_d_paging_btm_next_'' @ str_int page
       @ ''?pageNumber='' @ str_int page
       @ ''&sortBy='' @ (if sort_by = ''recent'' then ''recent'' else ''helpful'')
       @ concat (map (\<lambda>(k, v). ''&'' @ quote_plus k @ ''='' @ quote_plus (py_str v))
                   (filter_params fs))"
    by (simp add: build_reviews_url_def Let_def urlencode_reviews_url_params)
next
  show "map_of (reviews_url_params page sort_by fs) ''sortBy''
       = Some (PStr (if sort_by = ''recent'' then ''recent'' else ''helpful''))"
    by (simp add: reviews_url_params_eq)
next
  have "filter (\<lambda>(k, v). k = ''sortBy'') (filter_params fs) = []"
    using sortBy_not_filter_key [of _ fs] by (auto simp: filter_empty_conv)
  then show "length (filter (\<lambda>(k, v). k = ''sortBy'') (reviews_url_params page sort_by fs)) = 1"
    by (simp add: reviews_url_params_eq)
next
  assume "self = self' \<and> a = a' \<and> domain_code = domain_code' \<and> page = page'
        \<and> sort_by = sort_by' \<and> fs = fs'"
  then show "build_reviews_url self a domain_code page sort_by fs
          = build_reviews_url self' a' domain_code' page' sort_by' fs'"
    by simp
qed

text \<open>
  Page 2 sorted by \<open>newest\<close>, with a star filter and verified-only, and page 1 sorted by
  \<open>recent\<close> with no filter.
\<close>

theorem build_reviews_url_sort_by_witness:
  "build_reviews_url sample_extractor ''B000TEST1'' ''uk'' 2 ''newest''
       [(''filterByStar'', PStr ''five star''), (''filterByKeyword'', PNone),
        (''verifiedOnly'', PBool True)]
     = ''https://www.amazon.co.uk/product-reviews/B000TEST1/ref=cm_cr_arp_d_paging_btm_next_2''
       @ ''?pageNumber=2&sortBy=helpful&filterByStar=five+star&reviewerType=avp_only_reviews''
   \<and> build_reviews_url sample_extractor ''B000TEST1'' ''uk'' 1 ''recent'' []
     = ''https://www.amazon.co.uk/product-reviews/B000TEST1/ref=cm_cr_arp_d_paging_btm_next_1''
       @ ''?pageNumber=1&sortBy=recent''"
proof -
  let ?fs = "[(''filterByStar'', PStr ''five star''), (''filterByKeyword'', PNone),
        (''verifiedOnly'', PBool True)]"
  have d: "get_domain (domain_cfg sample_extractor) ''uk'' = ''co.uk''"
    by code_simp
  have s2: "str_int 2 = ''2''" and s1: "str_int 1 = ''1''"
    by code_simp+
  have f: "concat (map (\<lambda>(k, v). ''&'' @ quote_plus k @ ''='' @ quote_plus (py_str v))
                   (filter_params ?fs)) = ''&filterByStar=five+star&reviewerType=avp_only_reviews''"
    by code_simp
  have e: "filter_params [] = []"
    by (simp add: filter_params_def)
  note t2 = build_reviews_url_sort_by [of sample_extractor "''B000TEST1''" "''uk''" 2 "''newest''" ?fs
      sample_extractor "''B000TEST1''" "''uk''" 2 "''newest''" ?fs, THEN conjunct1]
  note t1 = build_reviews_url_sort_by [of sample_extractor "''B000TEST1''" "''uk''" 1 "''recent''" "[]"
      sample_extractor "''B000TEST1''" "''uk''" 1 "''recent''" "[]", THEN conjunct1]
  from t2 [unfolded d s2 f] t1 [unfolded d s1 e] show ?thesis
    by simp
qed

section \<open>Properties of the page fetcher\<close>

lemma requests_made_append: "requests_made (w @ v) = requests_made w + requests_made v"
  by (simp add: requests_made_def)

lemma requests_made_step: "requests_made (w @ [Requested rq, Slept d]) = Suc (requests_made w)"
  by (simp add: requests_made_def)

lemma http_attempts_all_fail:
  "\<forall>i < length attempts. \<not> ok_outcome (nw (requests_made w + i) rq)
     \<Longrightarrow> http_attempts nw rq attempts w = (None, w @ backoff_trace rq attempts)"
proof (induction attempts arbitrary: w)
  case Nil
  show ?case by (simp add: backoff_trace_def)
next
  case (Cons n attempts)
  from Cons.prems have first: "\<not> ok_outcome (nw (requests_made w) rq)"
    by force
  have rest: "\<forall>i < length attempts.
      \<not> ok_outcome (nw (requests_made (w @ [Requested rq, Slept (of_int n / 2)]) + i) rq)"
  proof (intro allI impI)
    fix i assume "i < length attempts"
    then have "Suc i < length (n # attempts)" by simp
    with Cons.prems have "\<not> ok_outcome (nw (requests_made w + Suc i) rq)" by blast
    then show "\<not> ok_outcome (nw (requests_made (w @ [Requested rq, Slept (of_int n / 2)]) + i) rq)"
      by (simp add: requests_made_step)
  qed
  have "http_attempts nw rq (n # attempts) w
      = http_attempts nw rq attempts (w @ [Requested rq, Slept (of_int n / 2)])"
    using first by (cases "nw (requests_made w) rq") simp_all
  also have "\<dots> = (None, (w @ [Requested rq, Slept (of_int n / 2)]) @ backoff_trace rq attempts)"
    by (rule Cons.IH [OF rest])
  finally show ?case
    by (simp add: backoff_trace_def)
qed

lemma http_attempts_success:
  "http_attempts nw rq attempts w = (Some body, w1)
     \<Longrightarrow> \<exists>i < length attempts. nw (requests_made w + i) rq = Response 200 body
           \<and> (\<forall>j < i. \<not> ok_outcome (nw (requests_made w + j) rq))
           \<and> w1 = w @ backoff_trace rq (take i attempts) @ [Requested rq]"
proof (induction attempts arbitrary: w)
  case Nil
  then show ?case by simp
next
  case (Cons n attempts)
  show ?case
  proof (cases "ok_outcome (nw (requests_made w) rq)")
    case True
    then obtain b where b: "nw (requests_made w) rq = Response 200 b"
      by (cases "nw (requests_made w) rq") auto
    with Cons.prems have "body = b" "w1 = w @ [Requested rq]"
      by simp_all
    with b show ?thesis
      by (intro exI [of _ 0]) (simp add: backoff_trace_def)
  next
    case False
    then have "http_attempts nw rq (n # attempts) w
        = http_attempts nw rq attempts (w @ [Requested rq, Slept (of_int n / 2)])"
      by (cases "nw (requests_made w) rq") simp_all
    with Cons.prems have "http_attempts nw rq attempts (w @ [Requested rq, Slept (of_int n / 2)])
        = (Some body, w1)"
      by simp
    from Cons.IH [OF this] obtain i where i: "i < length attempts"
        "nw (requests_made (w @ [Requested rq, Slept (of_int n / 2)]) + i) rq = Response 200 body"
        "\<forall>j < i. \<not> ok_outcome (nw (requests_made (w @ [Requested rq, Slept (of_int n / 2)]) + j) rq)"
        "w1 = (w @ [Requested rq, Slept (of_int n / 2)]) @ backoff_trace rq (take i attempts) @ [Requested rq]"
      by blast
    have "\<forall>j < Suc i. \<not> ok_outcome (nw (requests_made w + j) rq)"
    proof (intro allI impI)
      fix j assume "j < Suc i"
      show "\<not> ok_outcome (nw (requests_made w + j) rq)"
      proof (cases j)
        case 0
        with False show ?thesis by simp
      next
        case (Suc j')
        with \<open>j < Suc i\<close> i(3) show ?thesis
          by (simp add: requests_made_step)
      qed
    qed
    moreover from i(2) have "nw (requests_made w + Suc i) rq = Response 200 body"
      by (simp add: requests_made_step)
    moreover from i(4) have "w1 = w @ backoff_trace rq (take (Suc i) (n # attempts)) @ [Requested rq]"
      by (simp add: backoff_trace_def)
    ultimately show ?thesis
      using i(1) by (intro exI [of _ "Suc i"]) simp
  qed
qed



lemma requests_made_backoff: "requests_made (backoff_trace rq attempts) = length attempts"
  by (induction attempts) (simp_all add: backoff_trace_def requests_made_def)

lemma http_attempts_bound:
  "requests_made (snd (http_attempts nw rq attempts w)) \<le> requests_made w + length attempts"
proof (induction attempts arbitrary: w)
  case Nil
  show ?case by simp
next
  case (Cons n attempts)
  have "requests_made (snd (http_attempts nw rq attempts (w @ [Requested rq, Slept (of_int n / 2)])))
      \<le> Suc (requests_made w) + length attempts"
    using Cons.IH [of "w @ [Requested rq, Slept (of_int n / 2)]"]
    by (simp add: requests_made_step)
  then show ?case
    by (cases "nw (requests_made w) rq") (simp_all add: requests_made_def)
qed

text \<open>
  C3. \<open>_http_get\<close> returns text only if one of its at most \<open>max_retries\<close> requests was
  answered with status 200, the text being that response's, after the earlier requests
  failed and each was followed by a sleep of 0.5 times its attempt number. If every one of
  the \<open>max_retries\<close> requests fails, by an exception or by another status, it returns
  \<open>None\<close> after exactly \<open>max_retries\<close> requests, each followed by that sleep. It makes
  at most \<open>max_retries\<close> requests in any case, and it never raises: the exception of a
  request is an outcome the loop handles.
\<close>

theorem http_get_retries:
  "(http_get nw self url w = (Some body, w1) \<longrightarrow>
      (\<exists>i < nat (max_retries self).
          nw (requests_made w + i) (make_request self url) = Response 200 body
        \<and> (\<forall>j < i. \<not> ok_outcome (nw (requests_made w + j) (make_request self url)))
        \<and> w1 = w @ backoff_trace (make_request self url) (take i [1..max_retries self])
               @ [Requested (make_request self url)]))
   \<and> ((\<forall>i < nat (max_retries self).
          \<not> ok_outcome (nw (requests_made w + i) (make_request self url)))
      \<longrightarrow> http_get nw self url w
            = (None, w @ backoff_trace (make_request self url) [1..max_retries self])
          \<and> requests_made (snd (http_get nw self url w))
            = requests_made w + nat (max_retries self))
   \<and> requests_made (snd (http_get nw self url w)) \<le> requests_made w + nat (max_retries self)"
proof (intro conjI impI)
  assume "http_get nw self url w = (Some body, w1)"
  then have "http_attempts nw (make_request self url) [1..max_retries self] w = (Some body, w1)"
    by (simp add: http_get_def)
  from http_attempts_success [OF this]
  show "\<exists>i < nat (max_retries self).
          nw (requests_made w + i) (make_request self url) = Response 200 body
        \<and> (\<forall>j < i. \<not> ok_outcome (nw (requests_made w + j) (make_request self url)))
        \<and> w1 = w @ backoff_trace (make_request self url) (take i [1..max_retries self])
               @ [Requested (make_request self url)]"
    by simp
next
  assume a: "\<forall>i < nat (max_retries self).
          \<not> ok_outcome (nw (requests_made w + i) (make_request self url))"
  then have "\<forall>i < length [1..max_retries self].
          \<not> ok_outcome (nw (requests_made w + i) (make_request self url))"
    by simp
  from http_attempts_all_fail [where attempts = "[1..max_retries self]" and nw = nw and w = w
      and rq = "make_request self url", OF this]
  show r: "http_get nw self url w
            = (None, w @ backoff_trace (make_request self url) [1..max_retries self])"
    by (simp add: http_get_def)
  show "requests_made (snd (http_get nw self url w)) = requests_made w + nat (max_retries self)"
    by (simp add: r requests_made_append requests_made_backoff)
next
  show "requests_made (snd (http_get nw self url w)) \<le> requests_made w + nat (max_retries self)"
    using http_attempts_bound [of nw "make_request self url" "[1..max_retries self]" w]
    by (simp add: http_get_def)
qed

text \<open>
  With three attempts: the failing network gives \<open>None\<close> after three requests and sleeps
  of 0.5, 1 and 1.5 seconds; the other network gives the text of its third response.
\<close>

theorem http_get_retries_witness:
  "http_get failing_net sample_extractor ''u'' []
     = (None, [Requested sample_request, Slept (1 / 2), Requested sample_request, Slept 1,
               Requested sample_request, Slept (3 / 2)])
   \<and> http_get flaky_net sample_extractor ''u'' []
     = (Some ''<html>'', [Requested sample_request, Slept (1 / 2), Requested sample_request,
                          Slept 1, Requested sample_request])
   \<and> (\<exists>i < 3. flaky_net i sample_request = Response 200 ''<html>'')"
proof -
  have m: "max_retries sample_extractor = 3"
    by (simp add: sample_extractor_def ReviewExtractor_init_def)
  have u: "[1..3::int] = [1, 2, 3]"
    by code_simp
  have f: "\<forall>i < nat (max_retries sample_extractor).
      \<not> ok_outcome (failing_net (requests_made [] + i) (make_request sample_extractor ''u''))"
    by (simp add: failing_net_def)
  have b: "backoff_trace sample_request [1, 2, 3]
      = [Requested sample_request, Slept (1 / 2), Requested sample_request, Slept 1,
         Requested sample_request, Slept (3 / 2)]"
    by (simp add: backoff_trace_def)
  note t0 = http_get_retries [of failing_net sample_extractor "''u''" "[]", THEN conjunct2,
      THEN conjunct1]
  note t = mp [OF t0 f, THEN conjunct1]
  have w1: "http_get failing_net sample_extractor ''u'' []
     = (None, [Requested sample_request, Slept (1 / 2), Requested sample_request, Slept 1,
               Requested sample_request, Slept (3 / 2)])"
    using t by (simp add: m u b sample_request_def [symmetric])
  have w2: "http_get flaky_net sample_extractor ''u'' []
     = (Some ''<html>'', [Requested sample_request, Slept (1 / 2), Requested sample_request,
                          Slept 1, Requested sample_request])"
    by (simp add: http_get_def m u flaky_net_def requests_made_def
        sample_request_def [symmetric])
  note s = http_get_retries [of flaky_net sample_extractor "''u''" "[]" "''<html>''"
      "[Requested sample_request, Slept (1 / 2), Requested sample_request, Slept 1,
        Requested sample_request]", THEN conjunct1, THEN mp, OF w2]
  from s have w3: "\<exists>i < 3. flaky_net i sample_request = Response 200 ''<html>''"
    by (auto simp: m requests_made_def sample_request_def)
  from w1 w2 w3 show ?thesis
    by (intro conjI)
qed

section \<open>Properties of the mock generator\<close>

lemma mock_record_fields:
  "vine (fst (mock_record R clk a dc fs sb page page_size t pt pr summary st)) = Some False"
  "variationId (fst (mock_record R clk a dc fs sb page page_size t pt pr summary st)) = Some a"
  "\<exists>v. variationList (fst (mock_record R clk a dc fs sb page page_size t pt pr summary st)) = Some [v]"
  "imageUrlList (fst (mock_record R clk a dc fs sb page page_size t pt pr summary st)) = None"
  "videoUrlList (fst (mock_record R clk a dc fs sb page page_size t pt pr summary st)) = None"
  by (simp_all add: mock_record_def Let_def case_prod_beta)

lemma mock_record_clock:
  "erase_date (fst (mock_record R clk a dc fs sb page page_size t pt pr summary st))
     = erase_date (fst (mock_record R clk' a dc fs sb page page_size t pt pr summary st))"
  "snd (mock_record R clk a dc fs sb page page_size t pt pr summary st)
     = snd (mock_record R clk' a dc fs sb page page_size t pt pr summary st)"
  by (simp_all add: mock_record_def Let_def case_prod_beta erase_date_def)

lemma mock_page_invariant:
  assumes "\<And>st. P (fst (mock_record R clk a dc fs sb page page_size t pt pr summary st))"
  shows "\<forall>r \<in> set records. P r
     \<Longrightarrow> \<forall>r \<in> set (fst (mock_page R clk a dc fs sb page page_size t pt pr summary idxs records st)). P r"
proof (induction idxs arbitrary: records st)
  case Nil
  then show ?case by simp
next
  case (Cons i idxs)
  have "\<forall>r \<in> set (records @ [fst (mock_record R clk a dc fs sb page page_size t pt pr summary st)]). P r"
    using Cons.prems assms by simp
  from Cons.IH [OF this] show ?case
    by (simp add: case_prod_beta Let_def)
qed

lemma mock_pages_invariant:
  assumes "\<And>page page_size st. P (fst (mock_record R clk a dc fs sb page page_size t pt pr summary st))"
  shows "\<forall>r \<in> set records. P r
     \<Longrightarrow> \<forall>r \<in> set (fst (mock_pages R clk a dc fs sb t pt pr summary pages records st)). P r"
proof (induction pages arbitrary: records st)
  case Nil
  then show ?case by simp
next
  case (Cons page pages)
  let ?ps = "fst (rand_randint R 5 12 (fst st))"
  let ?g1 = "snd (rand_randint R 5 12 (fst st))"
  have "\<forall>r \<in> set (fst (mock_page R clk a dc fs sb page ?ps t pt pr summary [0..?ps - 1]
      records (?g1, snd st))). P r"
    using Cons.prems assms by (intro mock_page_invariant) auto
  from Cons.IH [OF this] show ?case
    by (simp add: case_prod_beta Let_def)
qed

lemma generate_mock_invariant:
  assumes "\<And>page page_size t pt pr summary st.
      P (fst (mock_record R clk a dc fs sb page page_size t pt pr summary st))"
  shows "\<forall>r \<in> set (generate_mock R H clk a dc max_pages fs sb). P r"
  unfolding generate_mock_def Let_def case_prod_beta
  by (intro mock_pages_invariant) (simp_all add: assms)

lemma mock_page_clock:
  "map erase_date records = map erase_date records'
   \<Longrightarrow> map erase_date (fst (mock_page R clk a dc fs sb page page_size t pt pr summary idxs records st))
       = map erase_date (fst (mock_page R clk' a dc fs sb page page_size t pt pr summary idxs records' st))
     \<and> snd (mock_page R clk a dc fs sb page page_size t pt pr summary idxs records st)
       = snd (mock_page R clk' a dc fs sb page page_size t pt pr summary idxs records' st)"
proof (induction idxs arbitrary: records records' st)
  case Nil
  then show ?case by simp
next
  case (Cons i idxs)
  let ?m = "mock_record R clk a dc fs sb page page_size t pt pr summary st"
  let ?m' = "mock_record R clk' a dc fs sb page page_size t pt pr summary st"
  have s: "snd ?m = snd ?m'" and e: "erase_date (fst ?m) = erase_date (fst ?m')"
    by (rule mock_record_clock)+
  have "map erase_date (records @ [fst ?m]) = map erase_date (records' @ [fst ?m'])"
    using Cons.prems e by simp
  from Cons.IH [OF this, of "snd ?m"] show ?case
    by (simp add: case_prod_beta Let_def s)
qed

lemma mock_pages_clock:
  "map erase_date records = map erase_date records'
   \<Longrightarrow> map erase_date (fst (mock_pages R clk a dc fs sb t pt pr summary pages records st))
       = map erase_date (fst (mock_pages R clk' a dc fs sb t pt pr summary pages records' st))
     \<and> snd (mock_pages R clk a dc fs sb t pt pr summary pages records st)
       = snd (mock_pages R clk' a dc fs sb t pt pr summary pages records' st)"
proof (induction pages arbitrary: records records' st)
  case Nil
  then show ?case by simp
next
  case (Cons page pages)
  let ?ps = "fst (rand_randint R 5 12 (fst st))"
  let ?g1 = "snd (rand_randint R 5 12 (fst st))"
  let ?p = "mock_page R clk a dc fs sb page ?ps t pt pr summary [0..?ps - 1] records (?g1, snd st)"
  let ?p' = "mock_page R clk' a dc fs sb page ?ps t pt pr summary [0..?ps - 1] records' (?g1, snd st)"
  from mock_page_clock [OF Cons.prems]
  have e: "map erase_date (fst ?p) = map erase_date (fst ?p')" and s: "snd ?p = snd ?p'"
    by blast+
  from Cons.IH [OF e, of "snd ?p"] show ?case
    by (simp add: case_prod_beta Let_def s)
qed

text \<open>
  Under one hash function, that is within one interpreter process, the records depend on
  the clock through \<open>date\<close> only: two calls with the same arguments agree on every
  other field, whatever the clock reads and whatever the generator was doing before.
\<close>

lemma generate_mock_clock_independent:
  "map erase_date (generate_mock R H clk a dc max_pages fs sb)
     = map erase_date (generate_mock R H clk' a dc max_pages fs sb)"
  unfolding generate_mock_def Let_def case_prod_beta
  by (intro mock_pages_clock [THEN conjunct1]) simp

lemma generate_mock_no_pages:
  "max_pages \<le> 0 \<Longrightarrow> generate_mock R H clk a dc max_pages fs sb = []"
  by (simp add: generate_mock_def Let_def case_prod_beta)

lemma mock_page_length:
  "length (fst (mock_page R clk a dc fs sb page page_size t pt pr summary idxs records st))
     = length records + length idxs"
proof (induction idxs arbitrary: records st)
  case Nil
  show ?case by simp
next
  case (Cons i idxs)
  show ?case
    using Cons.IH [of "records @ [fst (mock_record R clk a dc fs sb page page_size t pt pr summary st)]"
        "snd (mock_record R clk a dc fs sb page page_size t pt pr summary st)"]
    by (simp add: case_prod_beta Let_def)
qed

lemma generate_mock_one_page_nonempty:
  assumes "\<And>g. 0 < fst (rand_randint R 5 12 g)"
  shows "generate_mock R H clk a dc 1 fs sb \<noteq> []"
proof -
  have u: "[1..1::int] = [1]"
    by (simp add: upto.simps)
  have "0 < length (generate_mock R H clk a dc 1 fs sb)"
    using assms by (simp add: generate_mock_def Let_def case_prod_beta u mock_page_length)
  then show ?thesis
    by auto
qed

lemma generate_mock_countRatings:
  "\<forall>r \<in> set (generate_mock R H clk a dc max_pages fs sb).
      countRatings r
        = Some (fst (rand_randint R 5 15 (rand_seed R (H (a, dc) AND 0xFFFFFFFF))) * max_pages)"
  unfolding generate_mock_def Let_def case_prod_beta
  by (intro mock_pages_invariant) (simp_all add: mock_record_def Let_def case_prod_beta)

lemma counter_random_randint:
  "fst (rand_randint counter_random lo hi g) = lo + int g mod (hi - lo + 1)"
  by (simp add: counter_random_def)

lemma counter_random_page_size: "0 < fst (rand_randint counter_random 5 12 g)"
  by (simp add: counter_random_randint)

lemma sample_mock_nonempty:
  "generate_mock counter_random H clk a dc 1 fs sb \<noteq> []"
  by (rule generate_mock_one_page_nonempty) (rule counter_random_page_size)

text \<open>
  C10. Every record of the mock generator has \<open>vine\<close> false, \<open>variationId\<close> equal to
  the \<open>asin\<close> argument and a \<open>variationList\<close> of exactly one element.
\<close>

theorem mock_record_constants:
  "\<forall>r \<in> set (generate_mock R H clk a domain_code max_pages fs sort_by).
      vine r = Some False \<and> variationId r = Some a
      \<and> (\<exists>v. variationList r = Some [v])"
  by (rule generate_mock_invariant) (simp add: mock_record_fields)

text \<open>
  One page for \<open>B000TEST1\<close> under the sample generator has records, and the first of
  them has the three values.
\<close>

theorem mock_record_constants_witness:
  "generate_mock counter_random process_hash_1 sample_clock ''B000TEST1'' ''com'' 1 []
     ''recent'' \<noteq> []
   \<and> vine (hd (generate_mock counter_random process_hash_1 sample_clock ''B000TEST1'' ''com'' 1 []
        ''recent'')) = Some False
   \<and> variationId (hd (generate_mock counter_random process_hash_1 sample_clock ''B000TEST1''
        ''com'' 1 [] ''recent'')) = Some ''B000TEST1''
   \<and> (\<exists>v. variationList (hd (generate_mock counter_random process_hash_1 sample_clock
        ''B000TEST1'' ''com'' 1 [] ''recent'')) = Some [v])"
proof -
  let ?recs = "generate_mock counter_random process_hash_1 sample_clock ''B000TEST1'' ''com'' 1 []
     ''recent''"
  have n: "?recs \<noteq> []"
    by (rule sample_mock_nonempty)
  then have "hd ?recs \<in> set ?recs"
    by (rule hd_in_set)
  with mock_record_constants [of counter_random process_hash_1 sample_clock "''B000TEST1''"
      "''com''" 1 "[]" "''recent''"]
  have c: "vine (hd ?recs) = Some False \<and> variationId (hd ?recs) = Some ''B000TEST1''
      \<and> (\<exists>v. variationList (hd ?recs) = Some [v])"
    by (rule bspec)
  show ?thesis
  proof (intro conjI)
    show "?recs \<noteq> []"
      by (rule n)
    show "vine (hd ?recs) = Some False"
      by (rule c [THEN conjunct1])
    show "variationId (hd ?recs) = Some ''B000TEST1''"
      by (rule c [THEN conjunct2, THEN conjunct1])
    show "\<exists>v. variationList (hd ?recs) = Some [v]"
      by (rule c [THEN conjunct2, THEN conjunct2])
  qed
qed

lemma erase_date_countRatings: "countRatings (erase_date r) = countRatings r"
  by (simp add: erase_date_def)

text \<open>
  C2 fails across interpreter processes. The seed is \<open>hash((asin, domain_code))\<close>, and
  the hash of a string differs from process to process. Under the sample generator, the
  same call \<open>(B000TEST1, com, 1, {}, recent)\<close> with the hash functions of two processes
  gives record sequences that differ outside \<open>date\<close>: the rating counts are 14 and 15.
\<close>

theorem generate_mock_hash_dependent:
  "map erase_date (generate_mock counter_random process_hash_1 sample_clock ''B000TEST1'' ''com''
       1 [] ''recent'')
   \<noteq> map erase_date (generate_mock counter_random process_hash_2 sample_clock ''B000TEST1''
       ''com'' 1 [] ''recent'')"
proof
  let ?r1 = "generate_mock counter_random process_hash_1 sample_clock ''B000TEST1'' ''com'' 1 []
     ''recent''"
  let ?r2 = "generate_mock counter_random process_hash_2 sample_clock ''B000TEST1'' ''com'' 1 []
     ''recent''"
  assume eq: "map erase_date ?r1 = map erase_date ?r2"
  have n1: "?r1 \<noteq> []" and n2: "?r2 \<noteq> []"
    by (rule sample_mock_nonempty)+
  have s1: "fst (rand_randint counter_random 5 15
      (rand_seed counter_random (process_hash_1 (''B000TEST1'', ''com'') AND 0xFFFFFFFF))) = 14"
    by (simp add: counter_random_def process_hash_1_def)
  have s2: "fst (rand_randint counter_random 5 15
      (rand_seed counter_random (process_hash_2 (''B000TEST1'', ''com'') AND 0xFFFFFFFF))) = 15"
    by (simp add: counter_random_def process_hash_2_def)
  have c1: "countRatings (hd ?r1) = Some 14"
    using generate_mock_countRatings [of counter_random process_hash_1 sample_clock
        "''B000TEST1''" "''com''" 1 "[]" "''recent''"] hd_in_set [OF n1]
    by (simp only: s1) simp
  have c2: "countRatings (hd ?r2) = Some 15"
    using generate_mock_countRatings [of counter_random process_hash_2 sample_clock
        "''B000TEST1''" "''com''" 1 "[]" "''recent''"] hd_in_set [OF n2]
    by (simp only: s2) simp
  from eq have "hd (map erase_date ?r1) = hd (map erase_date ?r2)"
    by (rule arg_cong)
  then have "erase_date (hd ?r1) = erase_date (hd ?r2)"
    by (simp only: hd_map [OF n1] hd_map [OF n2])
  then have "countRatings (erase_date (hd ?r1)) = countRatings (erase_date (hd ?r2))"
    by (rule arg_cong)
  with c1 c2 show False
    by (simp only: erase_date_countRatings) simp
qed

section \<open>No pages\<close>

text \<open>
  C9. With \<open>max_pages\<close> at most 0, \<open>fetch_reviews\<close> returns the empty list in mock mode
  and in live mode, for every \<open>asin\<close>, domain code, filter set and sort strategy, and
  leaves the trace as it was: no request is sent.
\<close>

theorem fetch_reviews_no_pages:
  "max_pages \<le> 0
   \<Longrightarrow> fetch_reviews env R H clk self a domain_code max_pages fs_opt sort_by mock w = (Inr [], w)"
  by (cases mock) (simp_all add: fetch_reviews_def Let_def generate_mock_no_pages)

text \<open>With \<open>max_pages\<close> 0 in mock mode and -3 in live mode.\<close>

theorem fetch_reviews_no_pages_witness:
  "fetch_reviews sample_env counter_random process_hash_1 sample_clock sample_extractor
       ''B000TEST1'' ''com'' 0 None ''recent'' True [] = (Inr [], [])
   \<and> fetch_reviews sample_env counter_random process_hash_1 sample_clock sample_extractor
       ''B000TEST1'' ''com'' (- 3) (Some [(''verifiedOnly'', PBool True)]) ''helpful'' False []
     = (Inr [], [])"
proof (rule conjI)
  have a: "(0::int) \<le> 0" by simp
  show "fetch_reviews sample_env counter_random process_hash_1 sample_clock sample_extractor
       ''B000TEST1'' ''com'' 0 None ''recent'' True [] = (Inr [], [])"
    by (rule fetch_reviews_no_pages [OF a])
next
  have b: "(- 3::int) \<le> 0" by simp
  show "fetch_reviews sample_env counter_random process_hash_1 sample_clock sample_extractor
       ''B000TEST1'' ''com'' (- 3) (Some [(''verifiedOnly'', PBool True)]) ''helpful'' False []
     = (Inr [], [])"
    by (rule fetch_reviews_no_pages [OF b])
qed

section \<open>Properties of the record assembler\<close>

lemma entries_of_Inr: "parse_reviews_from_soup soup = Inr rs \<Longrightarrow> entries_of soup = rs"
  by (simp add: entries_of_def)

lemma summary_of_Inr: "parse_summary_info soup = Inr s \<Longrightarrow> summary_of soup = Some s"
  by (simp add: summary_of_def)

lemma first_info_Some:
  "first_pinfo (Some p) docs = Some p" "first_sinfo (Some s) docs = Some s"
  by (simp_all add: first_pinfo_def first_sinfo_def)

text \<open>
  A run of the loop that returns has parsed every fetched document, and its records are
  those of the fetched pages, in page order, with the page-level data of the first one.
\<close>

lemma fetch_pages_char:
  "fetch_pages env self a dc sb fs pages pinfo sinfo records w = (Inr recs, w1)
   \<Longrightarrow> recs = records @ concat (map (page_records a dc sb fs
                (first_pinfo pinfo (fetched_docs env self a dc sb fs pages w))
                (first_sinfo sinfo (fetched_docs env self a dc sb fs pages w)))
              (zip pages (fetched_docs env self a dc sb fs pages w)))
     \<and> (\<forall>d \<in> set (fetched_docs env self a dc sb fs pages w).
            parse_reviews_from_soup d = Inr (entries_of d))
     \<and> (sinfo = None \<longrightarrow> fetched_docs env self a dc sb fs pages w \<noteq> [] \<longrightarrow>
            (\<exists>s. parse_summary_info (fetched_docs env self a dc sb fs pages w ! 0) = Inr s
               \<and> first_sinfo None (fetched_docs env self a dc sb fs pages w) = Some s))"
proof (induction pages arbitrary: pinfo sinfo records w)
  case Nil
  then show ?case by simp
next
  case (Cons page pages)
  obtain html w2 where h: "http_get (net env) self (build_reviews_url self a dc page sb fs) w = (html, w2)"
    by (cases "http_get (net env) self (build_reviews_url self a dc page sb fs) w")
  show ?case
  proof (cases "html = None \<or> html = Some []")
    case True
    then show ?thesis
      using h Cons.prems by (auto simp: Let_def)
  next
    case False
    then obtain markup where m: "html = Some markup" "markup \<noteq> []"
      by auto
    let ?d = "(html_parser env markup, [])"
    let ?docs = "fetched_docs env self a dc sb fs pages (w2 @ [Paced])"
    have docs: "fetched_docs env self a dc sb fs (page # pages) w = ?d # ?docs"
      using h m by simp
    let ?p1 = "first_pinfo pinfo (?d # ?docs)"
    let ?S = "case sinfo of
                None \<Rightarrow> (case parse_summary_info ?d of Inl e \<Rightarrow> Inl e | Inr s \<Rightarrow> Inr (Some s))
              | Some s \<Rightarrow> Inr (Some s)"
    have p1: "(case pinfo of None \<Rightarrow> Some (parse_product_info ?d) | Some p \<Rightarrow> Some p) = ?p1"
      by (simp add: first_pinfo_def split: option.splits)
    have unfold: "fetch_pages env self a dc sb fs (page # pages) pinfo sinfo records w
        = (case ?S of
             Inl e \<Rightarrow> (Inl e, w2)
           | Inr sinfo1 \<Rightarrow>
               (case parse_reviews_from_soup ?d of
                  Inl e \<Rightarrow> (Inl e, w2)
                | Inr page_reviews \<Rightarrow>
                    fetch_pages env self a dc sb fs pages ?p1 sinfo1
                      (records @ map (assemble_record a dc page sb fs ?p1 sinfo1
                                        (length page_reviews)) page_reviews)
                      (w2 @ [Paced])))"
      using h m by (simp add: Let_def p1 cong: sum.case_cong)
    from Cons.prems unfold obtain sinfo1 where S: "?S = Inr sinfo1"
      by (cases ?S) simp_all
    from Cons.prems unfold S obtain es where es: "parse_reviews_from_soup ?d = Inr es"
      by (cases "parse_reviews_from_soup ?d") simp_all
    then have eo: "entries_of ?d = es"
      by (rule entries_of_Inr)
    have s1: "sinfo1 = first_sinfo sinfo (?d # ?docs)"
      and s1_some: "\<exists>s'. sinfo1 = Some s'"
      and first: "sinfo = None \<longrightarrow> (\<exists>s. parse_summary_info ?d = Inr s
          \<and> first_sinfo None (?d # ?docs) = Some s)"
    proof -
      show "sinfo1 = first_sinfo sinfo (?d # ?docs)"
        using S by (cases sinfo; cases "parse_summary_info ?d")
          (auto simp: first_sinfo_def summary_of_def)
      show "\<exists>s'. sinfo1 = Some s'"
        using S by (cases sinfo; cases "parse_summary_info ?d") auto
      show "sinfo = None \<longrightarrow> (\<exists>s. parse_summary_info ?d = Inr s
          \<and> first_sinfo None (?d # ?docs) = Some s)"
        using S by (cases sinfo; cases "parse_summary_info ?d")
          (auto simp: first_sinfo_def summary_of_def)
    qed
    obtain p' where p': "?p1 = Some p'"
      by (cases pinfo) (simp_all add: first_pinfo_def)
    from s1_some obtain s' where s': "sinfo1 = Some s'"
      by blast
    let ?recs1 = "records @ map (assemble_record a dc page sb fs ?p1 sinfo1 (length es)) es"
    from Cons.prems unfold S es
    have "fetch_pages env self a dc sb fs pages ?p1 sinfo1 ?recs1 (w2 @ [Paced]) = (Inr recs, w1)"
      by simp
    from Cons.IH [OF this]
    have r: "recs = ?recs1 @ concat (map (page_records a dc sb fs (first_pinfo ?p1 ?docs)
                (first_sinfo sinfo1 ?docs)) (zip pages ?docs))"
      and e: "\<forall>d \<in> set ?docs. parse_reviews_from_soup d = Inr (entries_of d)"
      by blast+
    have "recs = records @ concat (map (page_records a dc sb fs ?p1 (first_sinfo sinfo (?d # ?docs)))
              (zip (page # pages) (?d # ?docs)))"
      using r by (simp add: p' s' s1 [symmetric] first_info_Some page_records_def eo)
    moreover have "\<forall>d \<in> set (?d # ?docs). parse_reviews_from_soup d = Inr (entries_of d)"
      using e es eo by simp
    moreover have "sinfo = None \<longrightarrow> ?d # ?docs \<noteq> [] \<longrightarrow>
        (\<exists>s. parse_summary_info ((?d # ?docs) ! 0) = Inr s
           \<and> first_sinfo None (?d # ?docs) = Some s)"
      using first by simp
    ultimately show ?thesis
      by (simp only: docs) 
  qed
qed

lemma fetched_docs_length:
  "length (fetched_docs env self a dc sb fs pages w) \<le> length pages"
proof (induction pages arbitrary: w)
  case Nil
  show ?case by simp
next
  case (Cons page pages)
  obtain html w1 where h: "http_get (net env) self (build_reviews_url self a dc page sb fs) w = (html, w1)"
    by (cases "http_get (net env) self (build_reviews_url self a dc page sb fs) w")
  show ?case
  proof (cases html)
    case None
    with h show ?thesis by simp
  next
    case (Some markup)
    with h Cons.IH [of "w1 @ [Paced]"] show ?thesis by simp
  qed
qed

lemma fetch_reviews_live_eq:
  assumes "fetch_reviews env R H clk self a dc max_pages fs_opt sb False w = (Inr recs, w1)"
    and "fs = (case fs_opt of None \<Rightarrow> [] | Some f \<Rightarrow> f)"
    and "docs = fetched_docs env self a dc sb fs [1..max_pages] w"
  shows "recs = concat (map (page_records a dc sb fs (first_pinfo None docs)
              (first_sinfo None docs)) (zip [1..max_pages] docs))"
    and "\<forall>d \<in> set docs. parse_reviews_from_soup d = Inr (entries_of d)"
    and "docs \<noteq> [] \<Longrightarrow> \<exists>s. parse_summary_info (docs ! 0) = Inr s
          \<and> first_sinfo None docs = Some s"
proof -
  from assms(1,2) have "fetch_pages env self a dc sb fs [1..max_pages] None None [] w
      = (Inr recs, w1)"
    by (simp add: fetch_reviews_def Let_def)
  note c = fetch_pages_char [OF this]
  show "recs = concat (map (page_records a dc sb fs (first_pinfo None docs)
              (first_sinfo None docs)) (zip [1..max_pages] docs))"
    using c [THEN conjunct1] by (simp add: assms(3))
  show "\<forall>d \<in> set docs. parse_reviews_from_soup d = Inr (entries_of d)"
    using c [THEN conjunct2, THEN conjunct1] by (simp add: assms(3))
  show "\<exists>s. parse_summary_info (docs ! 0) = Inr s \<and> first_sinfo None docs = Some s"
    if "docs \<noteq> []"
    using c [THEN conjunct2, THEN conjunct2] that by (simp add: assms(3))
qed

lemma entries_of_parse_review:
  assumes "e \<in> set (entries_of soup)"
  shows "\<exists>entry. parse_review entry = Inr e"
proof (cases "parse_reviews_from_soup soup")
  case (Inl err)
  with assms show ?thesis
    by (simp add: entries_of_def)
next
  case (Inr rs)
  then have rs: "\<forall>i < length rs. parse_review (select sel_review soup ! i) = Inr (rs ! i)"
    using parse_reviews_from_soup_Inr by blast
  from Inr have "entries_of soup = rs"
    by (rule entries_of_Inr)
  with assms obtain i where "i < length rs" "rs ! i = e"
    by (auto simp: in_set_conv_nth)
  with rs show ?thesis
    by blast
qed

lemma or_None_not_empty: "or_None xs \<noteq> Some []"
  by (simp add: or_None_def)

lemma parse_review_multi:
  "parse_review entry = Inr e
   \<Longrightarrow> r_images e \<noteq> Some [] \<and> r_videos e \<noteq> Some [] \<and> r_variations e \<noteq> Some []"
  by (simp add: parse_review_fields or_None_not_empty)

lemma page_records_multi:
  assumes "r \<in> set (page_records a dc sb fs pinfo sinfo pd)"
  shows "imageUrlList r \<noteq> Some [] \<and> videoUrlList r \<noteq> Some [] \<and> variationList r \<noteq> Some []"
proof -
  from assms obtain e where e: "e \<in> set (entries_of (snd pd))"
      "r = assemble_record a dc (fst pd) sb fs pinfo sinfo (length (entries_of (snd pd))) e"
    by (auto simp: page_records_def)
  from e(1) obtain entry where "parse_review entry = Inr e"
    using entries_of_parse_review by blast
  then have "r_images e \<noteq> Some [] \<and> r_videos e \<noteq> Some [] \<and> r_variations e \<noteq> Some []"
    by (rule parse_review_multi)
  with e(2) show ?thesis
    by (simp add: assemble_record_def)
qed

lemma page_records_fields:
  assumes "r \<in> set (page_records a dc sb fs pinfo sinfo pd)"
  shows "currentPage r = fst pd"
    and "countReviews r = int (length (entries_of (snd pd)))"
    and "productTitle r = (case pinfo of Some p \<Rightarrow> pi_title p | None \<Rightarrow> None)"
    and "countRatings r = (case sinfo of Some s \<Rightarrow> si_countRatings s | None \<Rightarrow> None)"
    and "productRating r = (case sinfo of Some s \<Rightarrow> si_productRating s | None \<Rightarrow> None)"
    and "reviewSummary r = (case sinfo of Some s \<Rightarrow> si_summary s | None \<Rightarrow> None)"
  using assms by (auto simp: page_records_def assemble_record_def)

lemma page_records_length:
  "length (page_records a dc sb fs pinfo sinfo pd) = length (entries_of (snd pd))"
  by (simp add: page_records_def)

lemma filter_concat_by_key:
  assumes "distinct (map fst zs)"
    and "\<forall>pd \<in> set zs. \<forall>r \<in> set (f pd). key r = fst pd"
    and "i < length zs"
  shows "filter (\<lambda>r. key r = fst (zs ! i)) (concat (map f zs)) = f (zs ! i)"
  using assms
proof (induction zs arbitrary: i)
  case Nil
  then show ?case by simp
next
  case (Cons z zs)
  have others: "filter (\<lambda>r. key r = fst z) (concat (map f zs)) = []"
  proof -
    have "\<forall>pd \<in> set zs. \<forall>r \<in> set (f pd). key r \<noteq> fst z"
      using Cons.prems(1,2) by (metis distinct.simps(2) image_eqI list.set_intros(2) list.simps(9) set_map)
    then show ?thesis
      by (auto simp: filter_empty_conv)
  qed
  have own: "filter (\<lambda>r. key r = fst z) (f z) = f z"
    using Cons.prems(2) by (simp add: filter_id_conv)
  show ?case
  proof (cases i)
    case 0
    with others own show ?thesis by simp
  next
    case (Suc j)
    with Cons.prems(3) have j: "j < length zs" by simp
    then have "zs ! j \<in> set zs" by simp
    with Cons.prems(1) have ne: "fst (zs ! j) \<noteq> fst z"
      by (metis distinct.simps(2) image_eqI list.simps(9) set_map)
    have "filter (\<lambda>r. key r = fst (zs ! j)) (f z) = []"
      using Cons.prems(2) ne by (auto simp: filter_empty_conv)
    moreover have "filter (\<lambda>r. key r = fst (zs ! j)) (concat (map f zs)) = f (zs ! j)"
      using Cons.prems(1,2) j by (intro Cons.IH) simp_all
    ultimately show ?thesis
      using Suc by simp
  qed
qed

lemma zip_pages_nth:
  assumes "i < length docs" and "length docs \<le> nat max_pages"
  shows "zip [1..max_pages] docs ! i = (int i + 1, docs ! i)"
proof -
  from assms have "1 + int i \<le> max_pages" by linarith
  then have "[1..max_pages] ! i = 1 + int i"
    by (rule nth_upto)
  moreover from assms have "i < length [1..max_pages]" by simp
  ultimately show ?thesis
    using assms(1) by simp
qed

lemma distinct_zip_pages: "distinct (map fst (zip [1..max_pages] docs))"
  by (simp add: map_fst_zip_take distinct_take)

lemma first_pinfo_docs:
  "docs \<noteq> [] \<Longrightarrow> first_pinfo None docs = Some (parse_product_info (docs ! 0))"
  by (cases docs) (simp_all add: first_pinfo_def)

lemma sample_max_retries: "[1..max_retries sample_extractor] = [1, 2, 3]"
  by code_simp

lemma http_get_flaky_first:
  "http_get flaky_net sample_extractor url []
     = (Some ''<html>'', [Requested (make_request sample_extractor url), Slept (1 / 2),
          Requested (make_request sample_extractor url), Slept 1,
          Requested (make_request sample_extractor url)])"
  by (simp add: http_get_def sample_max_retries flaky_net_def requests_made_def)

lemma http_get_flaky_later:
  "2 \<le> requests_made w
   \<Longrightarrow> http_get flaky_net sample_extractor url w
       = (Some ''<html>'', w @ [Requested (make_request sample_extractor url)])"
  by (simp add: http_get_def sample_max_retries flaky_net_def)

lemma sample_docs:
  "fetched_docs sample_env sample_extractor a dc sb fs [1..2] []
     = [(sample_page, []), (sample_page, [])]"
proof -
  have u: "[1..2::int] = [1, 2]"
    by code_simp
  have n: "net sample_env = flaky_net" "html_parser sample_env = (\<lambda>markup. sample_page)"
    by (simp_all add: sample_env_def)
  show ?thesis
    by (simp add: u n http_get_flaky_first http_get_flaky_later requests_made_def)
qed

lemma sample_page_entries:
  "\<exists>rs. parse_reviews_from_soup (sample_page, []) = Inr rs \<and> length rs = 2"
proof -
  have "(case parse_reviews_from_soup (sample_page, []) of
           Inr rs \<Rightarrow> length rs = 2 | Inl e \<Rightarrow> False)"
    by code_simp
  then show ?thesis
    by (cases "parse_reviews_from_soup (sample_page, [])") simp_all
qed

lemma sample_page_summary:
  "parse_summary_info (sample_page, [])
     = Inr \<lparr>si_productRating = Some ''4.5 out of 5'', si_countRatings = Some 1234,
            si_summary = None\<rparr>"
  by code_simp

lemma sample_page_title: "pi_title (parse_product_info (sample_page, [])) = Some ''Widget''"
  by code_simp

lemma sample_live_returns:
  "\<exists>recs w1. fetch_reviews sample_env R H clk sample_extractor a dc 2 None sb False []
     = (Inr recs, w1)"
proof -
  have u: "[1..2::int] = [1, 2]"
    by code_simp
  have n: "net sample_env = flaky_net" "html_parser sample_env = (\<lambda>markup. sample_page)"
    by (simp_all add: sample_env_def)
  obtain rs where rs: "parse_reviews_from_soup (sample_page, []) = Inr rs"
    using sample_page_entries by blast
  show ?thesis
    by (simp add: fetch_reviews_def u n http_get_flaky_first http_get_flaky_later
        requests_made_def sample_page_summary rs Let_def)
qed

lemma sample_live_nonempty:
  assumes "fetch_reviews sample_env R H clk sample_extractor a dc 2 None sb False []
      = (Inr recs, w1)"
  shows "recs \<noteq> []"
proof -
  have u: "[1..2::int] = [1, 2]"
    by code_simp
  obtain rs where rs: "parse_reviews_from_soup (sample_page, []) = Inr rs" "length rs = 2"
    using sample_page_entries by blast
  then have e: "length (entries_of (sample_page, [])) = 2"
    by (simp add: entries_of_def)
  have "length recs = length (concat (map (page_records a dc sb []
            (first_pinfo None (fetched_docs sample_env sample_extractor a dc sb [] [1..2] []))
            (first_sinfo None (fetched_docs sample_env sample_extractor a dc sb [] [1..2] [])))
          (zip [1..2] (fetched_docs sample_env sample_extractor a dc sb [] [1..2] []))))"
    using fetch_reviews_live_eq(1) [OF assms, of "[]"
        "fetched_docs sample_env sample_extractor a dc sb [] [1..2] []"]
    by simp
  also have "\<dots> = 4"
    by (simp only: sample_docs) (simp add: u page_records_length e)
  finally show ?thesis
    by auto
qed

text \<open>
  C7. In every record of a run of \<open>fetch_reviews\<close> that returns, in live mode and in
  mock mode, each of \<open>imageUrlList\<close>, \<open>videoUrlList\<close> and \<open>variationList\<close> is
  \<open>None\<close> or a non-empty list, never the empty list. A run in mock mode always returns.
\<close>

theorem multi_valued_never_empty:
  "(fetch_reviews env R H clk self a domain_code max_pages fs_opt sort_by mock w
       = (Inr recs, w1)
     \<longrightarrow> (\<forall>r \<in> set recs. imageUrlList r \<noteq> Some [] \<and> videoUrlList r \<noteq> Some []
           \<and> variationList r \<noteq> Some []))
   \<and> (mock \<longrightarrow> (\<exists>recs' w'.
         fetch_reviews env R H clk self a domain_code max_pages fs_opt sort_by mock w
           = (Inr recs', w')))"
proof (intro conjI impI)
  assume f: "fetch_reviews env R H clk self a domain_code max_pages fs_opt sort_by mock w
       = (Inr recs, w1)"
  let ?fs = "case fs_opt of None \<Rightarrow> [] | Some f \<Rightarrow> f"
  show "\<forall>r \<in> set recs. imageUrlList r \<noteq> Some [] \<and> videoUrlList r \<noteq> Some []
           \<and> variationList r \<noteq> Some []"
  proof (cases mock)
    case True
    have "\<forall>r \<in> set (generate_mock R H clk a domain_code max_pages ?fs sort_by).
        imageUrlList r \<noteq> Some [] \<and> videoUrlList r \<noteq> Some [] \<and> variationList r \<noteq> Some []"
    proof (rule generate_mock_invariant)
      fix page page_size t pt pr summary and st :: "'a \<times> nat"
      let ?r = "fst (mock_record R clk a domain_code ?fs sort_by page page_size t pt pr
          summary st)"
      obtain v where "variationList ?r = Some [v]"
        using mock_record_fields(3) by blast
      then show "imageUrlList ?r \<noteq> Some [] \<and> videoUrlList ?r \<noteq> Some []
          \<and> variationList ?r \<noteq> Some []"
        by (simp add: mock_record_fields)
    qed
    moreover from f True
    have "recs = generate_mock R H clk a domain_code max_pages ?fs sort_by"
      by (simp add: fetch_reviews_def Let_def)
    ultimately show ?thesis
      by simp
  next
    case False
    let ?docs = "fetched_docs env self a domain_code sort_by ?fs [1..max_pages] w"
    from f False have f': "fetch_reviews env R H clk self a domain_code max_pages fs_opt sort_by
        False w = (Inr recs, w1)"
      by simp
    have recs: "recs = concat (map (page_records a domain_code sort_by ?fs (first_pinfo None ?docs)
        (first_sinfo None ?docs)) (zip [1..max_pages] ?docs))"
      by (rule fetch_reviews_live_eq(1) [OF f' refl refl])
    show ?thesis
    proof
      fix r assume "r \<in> set recs"
      with recs obtain pd where "r \<in> set (page_records a domain_code sort_by ?fs
          (first_pinfo None ?docs) (first_sinfo None ?docs) pd)"
        by auto
      then show "imageUrlList r \<noteq> Some [] \<and> videoUrlList r \<noteq> Some []
          \<and> variationList r \<noteq> Some []"
        by (rule page_records_multi)
    qed
  qed
next
  assume mock
  then show "\<exists>recs' w'.
      fetch_reviews env R H clk self a domain_code max_pages fs_opt sort_by mock w
        = (Inr recs', w')"
    by (simp add: fetch_reviews_def Let_def)
qed

text \<open>
  A live run over two pages of the sample page and a mock run of one page: both return
  records, and the first record of each has no empty list.
\<close>

theorem multi_valued_never_empty_witness:
  "(\<exists>recs w1.
      fetch_reviews sample_env counter_random process_hash_1 sample_clock sample_extractor
        ''B000TEST1'' ''uk'' 2 None ''recent'' False [] = (Inr recs, w1)
    \<and> recs \<noteq> [] \<and> imageUrlList (hd recs) \<noteq> Some [] \<and> videoUrlList (hd recs) \<noteq> Some []
    \<and> variationList (hd recs) \<noteq> Some [])
   \<and> (\<exists>recs w1.
      fetch_reviews sample_env counter_random process_hash_1 sample_clock sample_extractor
        ''B000TEST1'' ''uk'' 1 None ''recent'' True [] = (Inr recs, w1)
    \<and> recs \<noteq> [] \<and> imageUrlList (hd recs) \<noteq> Some [] \<and> videoUrlList (hd recs) \<noteq> Some []
    \<and> variationList (hd recs) \<noteq> Some [])"
proof (rule conjI)
  obtain recs w1 where
    f: "fetch_reviews sample_env counter_random process_hash_1 sample_clock sample_extractor
        ''B000TEST1'' ''uk'' 2 None ''recent'' False [] = (Inr recs, w1)"
    using sample_live_returns by blast
  note m = multi_valued_never_empty [of sample_env counter_random process_hash_1 sample_clock
      sample_extractor "''B000TEST1''" "''uk''" 2 None "''recent''" False "[]" recs w1,
      THEN conjunct1, THEN mp, OF f]
  from f have n: "recs \<noteq> []"
    by (rule sample_live_nonempty)
  then have "hd recs \<in> set recs"
    by (rule hd_in_set)
  with m have c: "imageUrlList (hd recs) \<noteq> Some [] \<and> videoUrlList (hd recs) \<noteq> Some []
      \<and> variationList (hd recs) \<noteq> Some []"
    by (rule bspec)
  show "\<exists>recs w1.
      fetch_reviews sample_env counter_random process_hash_1 sample_clock sample_extractor
        ''B000TEST1'' ''uk'' 2 None ''recent'' False [] = (Inr recs, w1)
    \<and> recs \<noteq> [] \<and> imageUrlList (hd recs) \<noteq> Some [] \<and> videoUrlList (hd recs) \<noteq> Some []
    \<and> variationList (hd recs) \<noteq> Some []"
  proof (intro exI conjI)
    show "fetch_reviews sample_env counter_random process_hash_1 sample_clock sample_extractor
        ''B000TEST1'' ''uk'' 2 None ''recent'' False [] = (Inr recs, w1)"
      by (rule f)
    show "recs \<noteq> []"
      by (rule n)
    show "imageUrlList (hd recs) \<noteq> Some []"
      by (rule c [THEN conjunct1])
    show "videoUrlList (hd recs) \<noteq> Some []"
      by (rule c [THEN conjunct2, THEN conjunct1])
    show "variationList (hd recs) \<noteq> Some []"
      by (rule c [THEN conjunct2, THEN conjunct2])
  qed
next
  have t: True
    by simp
  note ret = multi_valued_never_empty [of sample_env counter_random process_hash_1 sample_clock
      sample_extractor "''B000TEST1''" "''uk''" 1 None "''recent''" True "[]" "[]" "[]",
      THEN conjunct2, THEN mp, OF t]
  then obtain recs w1 where
    f: "fetch_reviews sample_env counter_random process_hash_1 sample_clock sample_extractor
        ''B000TEST1'' ''uk'' 1 None ''recent'' True [] = (Inr recs, w1)"
    by (elim exE)
  note m = multi_valued_never_empty [of sample_env counter_random process_hash_1 sample_clock
      sample_extractor "''B000TEST1''" "''uk''" 1 None "''recent''" True "[]" recs w1,
      THEN conjunct1, THEN mp, OF f]
  from f have "recs = generate_mock counter_random process_hash_1 sample_clock ''B000TEST1''
      ''uk'' 1 [] ''recent''"
    by (simp add: fetch_reviews_def)
  then have n: "recs \<noteq> []"
    by (simp only: sample_mock_nonempty not_False_eq_True)
  then have "hd recs \<in> set recs"
    by (rule hd_in_set)
  with m have c: "imageUrlList (hd recs) \<noteq> Some [] \<and> videoUrlList (hd recs) \<noteq> Some []
      \<and> variationList (hd recs) \<noteq> Some []"
    by (rule bspec)
  show "\<exists>recs w1.
      fetch_reviews sample_env counter_random process_hash_1 sample_clock sample_extractor
        ''B000TEST1'' ''uk'' 1 None ''recent'' True [] = (Inr recs, w1)
    \<and> recs \<noteq> [] \<and> imageUrlList (hd recs) \<noteq> Some [] \<and> videoUrlList (hd recs) \<noteq> Some []
    \<and> variationList (hd recs) \<noteq> Some []"
  proof (intro exI conjI)
    show "fetch_reviews sample_env counter_random process_hash_1 sample_clock sample_extractor
        ''B000TEST1'' ''uk'' 1 None ''recent'' True [] = (Inr recs, w1)"
      by (rule f)
    show "recs \<noteq> []"
      by (rule n)
    show "imageUrlList (hd recs) \<noteq> Some []"
      by (rule c [THEN conjunct1])
    show "videoUrlList (hd recs) \<noteq> Some []"
      by (rule c [THEN conjunct2, THEN conjunct1])
    show "variationList (hd recs) \<noteq> Some []"
      by (rule c [THEN conjunct2, THEN conjunct2])
  qed
qed

text \<open>
  C1. In a live run that returns, with the documents it parsed, in page order: a page
  whose document yields N review entries has exactly N records, and every record belongs
  to such a page and has \<open>countReviews\<close> N. In every record \<open>productTitle\<close>,
  \<open>countRatings\<close>, \<open>productRating\<close> and \<open>reviewSummary\<close> are those of the first
  parsed document, so they are the same in all records of a page and are not taken from a
  later page.
\<close>

theorem fetch_reviews_page_fields:
  assumes "fetch_reviews env R H clk self a domain_code max_pages fs_opt sort_by False w
      = (Inr recs, w1)"
    and "docs = fetched_docs env self a domain_code sort_by
               (case fs_opt of None \<Rightarrow> [] | Some f \<Rightarrow> f) [1..max_pages] w"
  shows "length docs \<le> nat max_pages
    \<and> (\<forall>i < length docs. \<exists>entries.
          parse_reviews_from_soup (docs ! i) = Inr entries
        \<and> length (filter (\<lambda>r. currentPage r = int i + 1) recs) = length entries)
    \<and> (\<forall>r \<in> set recs. \<exists>i entries si.
          i < length docs \<and> currentPage r = int i + 1
        \<and> parse_reviews_from_soup (docs ! i) = Inr entries
        \<and> countReviews r = int (length entries)
        \<and> parse_summary_info (docs ! 0) = Inr si
        \<and> productTitle r = pi_title (parse_product_info (docs ! 0))
        \<and> countRatings r = si_countRatings si
        \<and> productRating r = si_productRating si
        \<and> reviewSummary r = si_summary si)"
proof -
  let ?fs = "case fs_opt of None \<Rightarrow> [] | Some f \<Rightarrow> f"
  let ?PR = "page_records a domain_code sort_by ?fs (first_pinfo None docs) (first_sinfo None docs)"
  let ?zs = "zip [1..max_pages] docs"
  note live = fetch_reviews_live_eq [OF assms(1) refl assms(2)]
  have recs: "recs = concat (map ?PR ?zs)"
    by (rule live(1))
  have parsed: "parse_reviews_from_soup (docs ! i) = Inr (entries_of (docs ! i))"
    if "i < length docs" for i
    using live(2) that by simp
  have len: "length docs \<le> nat max_pages"
    using fetched_docs_length [of env self a domain_code sort_by ?fs "[1..max_pages]" w]
    by (simp add: assms(2))
  then have lz: "length ?zs = length docs"
    by simp
  have nth: "?zs ! i = (int i + 1, docs ! i)" if "i < length docs" for i
    using that len by (rule zip_pages_nth)
  have key: "\<forall>pd \<in> set ?zs. \<forall>r \<in> set (?PR pd). currentPage r = fst pd"
    by (auto dest: page_records_fields(1))
  have per_page: "\<exists>entries. parse_reviews_from_soup (docs ! i) = Inr entries
        \<and> length (filter (\<lambda>r. currentPage r = int i + 1) recs) = length entries"
    if i: "i < length docs" for i
  proof -
    from i lz have "i < length ?zs" by simp
    with distinct_zip_pages key
    have "filter (\<lambda>r. currentPage r = fst (?zs ! i)) (concat (map ?PR ?zs)) = ?PR (?zs ! i)"
      by (rule filter_concat_by_key)
    then have "filter (\<lambda>r. currentPage r = int i + 1) recs = ?PR (int i + 1, docs ! i)"
      by (simp add: nth [OF i] recs)
    then have "length (filter (\<lambda>r. currentPage r = int i + 1) recs)
        = length (entries_of (docs ! i))"
      by (simp add: page_records_length)
    with parsed [OF i] show ?thesis
      by blast
  qed
  have per_record: "\<exists>i entries si.
          i < length docs \<and> currentPage r = int i + 1
        \<and> parse_reviews_from_soup (docs ! i) = Inr entries
        \<and> countReviews r = int (length entries)
        \<and> parse_summary_info (docs ! 0) = Inr si
        \<and> productTitle r = pi_title (parse_product_info (docs ! 0))
        \<and> countRatings r = si_countRatings si
        \<and> productRating r = si_productRating si
        \<and> reviewSummary r = si_summary si"
    if r: "r \<in> set recs" for r
  proof -
    from r recs obtain pd where pd: "pd \<in> set ?zs" "r \<in> set (?PR pd)"
      by auto
    from pd(1) obtain i where i: "i < length ?zs" "?zs ! i = pd"
      by (auto simp: in_set_conv_nth)
    with lz have il: "i < length docs" by simp
    then have ne: "docs \<noteq> []" by auto
    have pd_eq: "pd = (int i + 1, docs ! i)"
      by (rule trans [OF i(2) [symmetric] nth [OF il]])
    obtain si where si: "parse_summary_info (docs ! 0) = Inr si"
        "first_sinfo None docs = Some si"
      using live(3) [OF ne] by blast
    note pf = page_records_fields [OF pd(2)]
    have "currentPage r = int i + 1"
      using pf(1) pd_eq by simp
    moreover have "countReviews r = int (length (entries_of (docs ! i)))"
      using pf(2) pd_eq by simp
    moreover have "productTitle r = pi_title (parse_product_info (docs ! 0))"
      using pf(3) first_pinfo_docs [OF ne] by simp
    moreover have "countRatings r = si_countRatings si" "productRating r = si_productRating si"
        "reviewSummary r = si_summary si"
      using pf(4-6) si(2) by simp_all
    ultimately show ?thesis
      using il si(1) parsed [OF il] by blast
  qed
  show ?thesis
  proof (intro conjI)
    show "length docs \<le> nat max_pages"
      by (rule len)
    show "\<forall>i < length docs. \<exists>entries.
          parse_reviews_from_soup (docs ! i) = Inr entries
        \<and> length (filter (\<lambda>r. currentPage r = int i + 1) recs) = length entries"
      using per_page by blast
    show "\<forall>r \<in> set recs. \<exists>i entries si.
          i < length docs \<and> currentPage r = int i + 1
        \<and> parse_reviews_from_soup (docs ! i) = Inr entries
        \<and> countReviews r = int (length entries)
        \<and> parse_summary_info (docs ! 0) = Inr si
        \<and> productTitle r = pi_title (parse_product_info (docs ! 0))
        \<and> countRatings r = si_countRatings si
        \<and> productRating r = si_productRating si
        \<and> reviewSummary r = si_summary si"
      using per_record by blast
  qed
qed

text \<open>
  Two pages of the sample page: the run returns, with two records on each page, and the
  first record counts 2 reviews and carries the title, rating count and rating text of
  the sample page.
\<close>

theorem fetch_reviews_page_fields_witness:
  "\<exists>recs w1.
      fetch_reviews sample_env counter_random process_hash_1 sample_clock sample_extractor
        ''B000TEST1'' ''uk'' 2 None ''recent'' False [] = (Inr recs, w1)
    \<and> length (filter (\<lambda>r. currentPage r = 1) recs) = 2
    \<and> length (filter (\<lambda>r. currentPage r = 2) recs) = 2
    \<and> countReviews (hd recs) = 2
    \<and> productTitle (hd recs) = Some ''Widget''
    \<and> countRatings (hd recs) = Some 1234
    \<and> productRating (hd recs) = Some ''4.5 out of 5''
    \<and> reviewSummary (hd recs) = None"
proof -
  let ?docs = "[(sample_page, []), (sample_page, [])] :: tag_obj list"
  obtain recs w1 where
    f: "fetch_reviews sample_env counter_random process_hash_1 sample_clock sample_extractor
        ''B000TEST1'' ''uk'' 2 None ''recent'' False [] = (Inr recs, w1)"
    using sample_live_returns by blast
  have d: "?docs = fetched_docs sample_env sample_extractor ''B000TEST1'' ''uk'' ''recent''
          (case None of None \<Rightarrow> [] | Some f \<Rightarrow> f) [1..2] []"
    by (simp only: sample_docs)
  note t = fetch_reviews_page_fields [OF f d]
  have pp: "\<forall>i < length ?docs. \<exists>entries.
          parse_reviews_from_soup (?docs ! i) = Inr entries
        \<and> length (filter (\<lambda>r. currentPage r = int i + 1) recs) = length entries"
    by (rule t [THEN conjunct2, THEN conjunct1])
  have pr: "\<forall>r \<in> set recs. \<exists>i entries si.
          i < length ?docs \<and> currentPage r = int i + 1
        \<and> parse_reviews_from_soup (?docs ! i) = Inr entries
        \<and> countReviews r = int (length entries)
        \<and> parse_summary_info (?docs ! 0) = Inr si
        \<and> productTitle r = pi_title (parse_product_info (?docs ! 0))
        \<and> countRatings r = si_countRatings si
        \<and> productRating r = si_productRating si
        \<and> reviewSummary r = si_summary si"
    by (rule t [THEN conjunct2, THEN conjunct2])
  obtain rs where rs: "parse_reviews_from_soup (sample_page, []) = Inr rs" "length rs = 2"
    using sample_page_entries by blast
  have at: "?docs ! i = (sample_page, [])" if "i < length ?docs" for i
    using that by (cases i) simp_all
  have p1: "length (filter (\<lambda>r. currentPage r = 1) recs) = 2"
    using pp [rule_format, of 0] rs by simp
  have p2: "length (filter (\<lambda>r. currentPage r = 2) recs) = 2"
    using pp [rule_format, of 1] rs by simp
  from p1 have "recs \<noteq> []"
    by auto
  then have "hd recs \<in> set recs"
    by (rule hd_in_set)
  from pr [rule_format, OF this] obtain i entries si where
    i: "i < length ?docs" and
    e: "parse_reviews_from_soup (?docs ! i) = Inr entries" and
    c: "countReviews (hd recs) = int (length entries)" and
    s: "parse_summary_info (?docs ! 0) = Inr si" and
    tt: "productTitle (hd recs) = pi_title (parse_product_info (?docs ! 0))"
      "countRatings (hd recs) = si_countRatings si"
      "productRating (hd recs) = si_productRating si"
      "reviewSummary (hd recs) = si_summary si"
    by (elim exE conjE)
  from e rs at [OF i] have "entries = rs"
    by simp
  with c rs(2) have c2: "countReviews (hd recs) = 2"
    by simp
  from s have si: "si = \<lparr>si_productRating = Some ''4.5 out of 5'', si_countRatings = Some 1234,
      si_summary = None\<rparr>"
    by (simp add: sample_page_summary)
  have t2: "productTitle (hd recs) = Some ''Widget''" "countRatings (hd recs) = Some 1234"
      "productRating (hd recs) = Some ''4.5 out of 5''" "reviewSummary (hd recs) = None"
    using tt by (simp_all add: si sample_page_title)
  from f p1 p2 c2 t2 show ?thesis
    by (intro exI [of _ recs] exI [of _ w1] conjI)
qed

end
